theory Spec2Isabelle
  imports Complex_Main "HOL-Library.Word" "HOL-Library.Monad_Syntax"
begin

section \<open>Common conventions\<close>

text \<open>
  \<^verbatim>\<open>REAL\<close> (a C double) is modelled by \<^typ>\<open>real\<close>: arithmetic is exact, and there is
  neither rounding nor NaN nor infinity. \<^verbatim>\<open>INT\<close> is modelled by \<^typ>\<open>int\<close>; where the
  source converts to \<^verbatim>\<open>unsigned INT\<close> the reduction modulo \<open>2 ^ 32\<close> is written out.
  A C array is a list; an access outside the list is undefined behaviour in C and is the
  error \<open>OutOfBounds\<close> here. A call of \<^verbatim>\<open>exit(code)\<close> is the error \<open>Exit code\<close>.
\<close>

datatype exit_code = ERROR_DATA_STRUCTURE | ERROR_WRONG_FILE | ERROR_OPEN_FILE

datatype error = OutOfBounds | Exit exit_code

section \<open>Dense vectors (blas\_vec.c)\<close>

record dvector =
  row :: int
  val :: "real list"

text \<open>The loop \<^verbatim>\<open>for (i=0; i<m; ++i) ypt[i] += a*xpt[i]\<close>; the last argument counts the
  iterations that remain.\<close>

fun axpy_loop :: "real \<Rightarrow> real list \<Rightarrow> real list \<Rightarrow> nat \<Rightarrow> nat \<Rightarrow> error + real list" where
  "axpy_loop a xpt ypt i 0 = Inr ypt"
| "axpy_loop a xpt ypt i (Suc k) =
     (if i < length xpt \<and> i < length ypt
      then axpy_loop a xpt (ypt[i := ypt ! i + a * xpt ! i]) (Suc i) k
      else Inl OutOfBounds)"

definition fasp_blas_dvec_axpy :: "real \<Rightarrow> dvector \<Rightarrow> dvector \<Rightarrow> error + dvector" where
  "fasp_blas_dvec_axpy a x y =
     (let m = row x mod 2 ^ 32 in
      if (row y - m) mod 2 ^ 32 \<noteq> 0 then Inl (Exit ERROR_DATA_STRUCTURE)
      else case axpy_loop a (val x) (val y) 0 (nat m) of
             Inl e \<Rightarrow> Inl e
           | Inr ypt \<Rightarrow> Inr (y\<lparr>val := ypt\<rparr>))"

text \<open>\<^verbatim>\<open>memcpy(zpt,ypt,m*sizeof(REAL))\<close>: the first \<open>m\<close> cells of \<open>zpt\<close> take the first
  \<open>m\<close> cells of \<open>ypt\<close>.\<close>

definition memcpy :: "real list \<Rightarrow> real list \<Rightarrow> nat \<Rightarrow> error + real list" where
  "memcpy dst src n =
     (if n \<le> length dst \<and> n \<le> length src then Inr (take n src @ drop n dst)
      else Inl OutOfBounds)"

definition fasp_blas_dvec_axpyz :: "real \<Rightarrow> dvector \<Rightarrow> dvector \<Rightarrow> dvector \<Rightarrow> error + dvector" where
  "fasp_blas_dvec_axpyz a x y z =
     (let m = row x in
      if (row y - m) mod 2 ^ 32 \<noteq> 0 then Inl (Exit ERROR_DATA_STRUCTURE)
      else case memcpy (val z) (val y) (nat (m mod 2 ^ 32)) of
             Inl e \<Rightarrow> Inl e
           | Inr zpt \<Rightarrow>
               (case axpy_loop a (val x) zpt 0 (nat (m mod 2 ^ 32)) of
                  Inl e \<Rightarrow> Inl e
                | Inr zpt' \<Rightarrow> Inr \<lparr>row = m, val = zpt'\<rparr>))"

text \<open>The loop \<^verbatim>\<open>for (i=0; i<length; ++i) value+=xpt[i]*ypt[i]\<close>.\<close>

fun dotprod_loop :: "real list \<Rightarrow> real list \<Rightarrow> real \<Rightarrow> nat \<Rightarrow> nat \<Rightarrow> error + real" where
  "dotprod_loop xpt ypt v i 0 = Inr v"
| "dotprod_loop xpt ypt v i (Suc k) =
     (if i < length xpt \<and> i < length ypt
      then dotprod_loop xpt ypt (v + xpt ! i * ypt ! i) (Suc i) k
      else Inl OutOfBounds)"

definition fasp_blas_dvec_dotprod :: "dvector \<Rightarrow> dvector \<Rightarrow> error + real" where
  "fasp_blas_dvec_dotprod x y =
     (let length = row x in dotprod_loop (val x) (val y) 0 0 (nat (length mod 2 ^ 32)))"

text \<open>A dense vector is well formed when \<open>val\<close> holds exactly \<open>row\<close> scalars.\<close>

definition dvec_wf :: "dvector \<Rightarrow> bool" where
  "dvec_wf x \<longleftrightarrow> 0 \<le> row x \<and> row x < 2 ^ 31 \<and> int (length (val x)) = row x"


section \<open>Array access for the integer-indexed routines\<close>

text \<open>Reading and writing a C array at an \<^verbatim>\<open>int\<close> index. \<open>None\<close> is the undefined
  behaviour of an access outside the array.\<close>

definition rd :: "'a list \<Rightarrow> int \<Rightarrow> 'a option" where
  "rd xs i = (if 0 \<le> i \<and> i < int (length xs) then Some (xs ! nat i) else None)"

definition wr :: "'a list \<Rightarrow> int \<Rightarrow> 'a \<Rightarrow> 'a list option" where
  "wr xs i v = (if 0 \<le> i \<and> i < int (length xs) then Some (xs[nat i := v]) else None)"

text \<open>A double division \<^verbatim>\<open>x / y\<close> whose result is kept: \<open>None\<close> stands for the infinity
  or NaN that C computes for a zero divisor.\<close>

definition fdiv :: "real \<Rightarrow> real \<Rightarrow> real option" where
  "fdiv x y = (if y = 0 then None else Some (x / y))"

section \<open>CSR matrices\<close>

record dCSRmat =
  row :: int
  col :: int
  nnz :: int
  IA :: "int list"
  JA :: "int list"
  val :: "real list"

section \<open>Polynomial smoother: Diaginv (smoother\_poly.c)\<close>

text \<open>The inner loop \<^verbatim>\<open>for(j=ia[i]; j<ia[i+1]; j++) if(i==ja[j]) break;\<close> started at \<open>j\<close>
  with \<open>e = ia[i+1]\<close>; the result is the value of \<open>j\<close> after the loop.\<close>

function Diaginv_scan :: "int list \<Rightarrow> int \<Rightarrow> int \<Rightarrow> int \<Rightarrow> int option" where
  "Diaginv_scan ja i j e =
     (if j < e then do {
        c \<leftarrow> rd ja j;
        if i = c then Some j else Diaginv_scan ja i (j + 1) e }
      else Some j)"
  by pat_completeness auto
termination
  by (relation "measure (\<lambda>(ja, i, j, e). nat (e - j))") auto

declare Diaginv_scan.simps [simp del]

text \<open>The outer loop \<^verbatim>\<open>for (i=0; i<n; i++)\<close> from row \<open>i\<close> on.\<close>

function Diaginv_loop :: "dCSRmat \<Rightarrow> real option list \<Rightarrow> int \<Rightarrow> real option list option" where
  "Diaginv_loop Amat Dinv i =
     (if i < dCSRmat.row Amat then do {
        b \<leftarrow> rd (dCSRmat.IA Amat) i;
        e \<leftarrow> rd (dCSRmat.IA Amat) (i + 1);
        j \<leftarrow> Diaginv_scan (dCSRmat.JA Amat) i b e;
        aj \<leftarrow> rd (dCSRmat.val Amat) j;
        Dinv' \<leftarrow> wr Dinv i (fdiv 1 aj);
        Diaginv_loop Amat Dinv' (i + 1) }
      else Some Dinv)"
  by pat_completeness auto
termination
  by (relation "measure (\<lambda>(Amat, Dinv, i). nat (dCSRmat.row Amat - i))") auto

declare Diaginv_loop.simps [simp del]

definition Diaginv :: "dCSRmat \<Rightarrow> real option list \<Rightarrow> real option list option" where
  "Diaginv Amat Dinv = Diaginv_loop Amat Dinv 0"

text \<open>Row \<open>i\<close> of a CSR matrix stores no entry in column \<open>i\<close>.\<close>

definition no_diag :: "dCSRmat \<Rightarrow> int \<Rightarrow> bool" where
  "no_diag Amat i \<longleftrightarrow>
     (\<forall>j \<in> {dCSRmat.IA Amat ! nat i ..< dCSRmat.IA Amat ! nat (i + 1)}. dCSRmat.JA Amat ! nat j \<noteq> i)"

section \<open>Reading a symmetric MatrixMarket file (io.c)\<close>

record dCOOmat =
  row :: int
  col :: int
  nnz :: int
  I :: "int list"
  J :: "int list"
  val :: "real list"

subsection \<open>The conversions of \<^verbatim>\<open>fscanf\<close>\<close>

text \<open>The file is the list of its characters after a successful \<^verbatim>\<open>fopen\<close>. A conversion
  skips white space and then takes the longest text that fits; it yields a value and the
  rest of the input (\<open>Conv\<close>), or stops at a character that does not fit (\<open>Mismatch\<close>, a
  matching failure), or finds the input used up (\<open>Input_end\<close>, an input failure).
  \<open>No_value\<close> stands for the cases in which the conversion has no value here: a \<^verbatim>\<open>%d\<close> item
  outside the range of \<^verbatim>\<open>int\<close> (undefined in C), and for \<^verbatim>\<open>%le\<close> the infinities, NaN and the
  hexadecimal form, which the exact reals of this development do not cover.\<close>

datatype 'a conv = Conv 'a string | Mismatch string | Input_end | No_value

definition is_space :: "char \<Rightarrow> bool" where
  "is_space c \<longleftrightarrow> (of_char c :: nat) \<in> {9, 10, 11, 12, 13, 32}"

definition is_digit :: "char \<Rightarrow> bool" where
  "is_digit c \<longleftrightarrow> 48 \<le> (of_char c :: nat) \<and> (of_char c :: nat) \<le> 57"

definition digits_val :: "string \<Rightarrow> nat" where
  "digits_val ds = foldl (\<lambda>a c. 10 * a + (of_char c - 48)) 0 ds"

text \<open>An optional sign: whether it is \<open>-\<close>, and the text after it.\<close>

definition scan_sign :: "string \<Rightarrow> bool \<times> string" where
  "scan_sign s =
     (case s of
        [] \<Rightarrow> (False, [])
      | c # r \<Rightarrow> if c = CHR ''-'' then (True, r) else if c = CHR ''+'' then (False, r)
                 else (False, s))"

text \<open>\<^verbatim>\<open>%d\<close>: an optional sign and at least one digit.\<close>

definition scan_d :: "string \<Rightarrow> int conv" where
  "scan_d s =
     (case dropWhile is_space s of
        [] \<Rightarrow> Input_end
      | c # r \<Rightarrow>
          (case scan_sign (c # r) of
             (neg, s1) \<Rightarrow>
               (let ds = takeWhile is_digit s1;
                    v = (if neg then - int (digits_val ds) else int (digits_val ds))
                in if ds = [] then Mismatch s1
                   else if - (2 ^ 31) \<le> v \<and> v < 2 ^ 31 then Conv v (dropWhile is_digit s1)
                   else No_value)))"

text \<open>The text starts with \<^verbatim>\<open>inf\<close>, \<^verbatim>\<open>nan\<close> or \<^verbatim>\<open>0x\<close> in either case.\<close>

definition special_literal :: "string \<Rightarrow> bool" where
  "special_literal s \<longleftrightarrow>
     take 3 s \<in> {a # b # [c] | a b c. a \<in> {CHR ''i'', CHR ''I''} \<and> b \<in> {CHR ''n'', CHR ''N''}
                                  \<and> c \<in> {CHR ''f'', CHR ''F''}}
     \<or> take 3 s \<in> {a # b # [c] | a b c. a \<in> {CHR ''n'', CHR ''N''} \<and> b \<in> {CHR ''a'', CHR ''A''}
                                     \<and> c \<in> {CHR ''n'', CHR ''N''}}
     \<or> take 2 s \<in> {[CHR ''0'', CHR ''x''], [CHR ''0'', CHR ''X'']}"

text \<open>The exponent part, if there is one: \<open>e\<close> or \<open>E\<close>, an optional sign, at least one digit.
  The result is the factor and the rest of the input.\<close>

definition scan_exponent :: "string \<Rightarrow> real conv" where
  "scan_exponent s =
     (case s of
        [] \<Rightarrow> Conv 1 []
      | c # r \<Rightarrow>
          if c = CHR ''e'' \<or> c = CHR ''E'' then
            (case scan_sign r of
               (neg, r1) \<Rightarrow>
                 (let ds = takeWhile is_digit r1
                  in if ds = [] then Mismatch r1
                     else Conv (if neg then 1 / 10 ^ digits_val ds else 10 ^ digits_val ds)
                            (dropWhile is_digit r1)))
          else Conv 1 s)"

text \<open>\<^verbatim>\<open>%le\<close>: an optional sign, digits with at most one point among them and at least one
  digit, an optional exponent. The value is the number that the text denotes (no rounding to
  a \<^verbatim>\<open>double\<close>).\<close>

definition scan_le :: "string \<Rightarrow> real conv" where
  "scan_le s =
     (case dropWhile is_space s of
        [] \<Rightarrow> Input_end
      | c # r \<Rightarrow>
          (case scan_sign (c # r) of
             (neg, s1) \<Rightarrow>
               (let ip = takeWhile is_digit s1;
                    s2 = dropWhile is_digit s1;
                    pt = (s2 \<noteq> [] \<and> hd s2 = CHR ''.'');
                    fp = (if pt then takeWhile is_digit (tl s2) else []);
                    s3 = (if pt then dropWhile is_digit (tl s2) else s2);
                    mant = real (digits_val ip) + real (digits_val fp) / 10 ^ length fp
                in if special_literal s1 then No_value
                   else if ip = [] \<and> fp = [] then Mismatch s1
                   else (case scan_exponent s3 of
                           Conv f rest \<Rightarrow> Conv ((if neg then - mant else mant) * f) rest
                         | Mismatch rest \<Rightarrow> Mismatch rest
                         | Input_end \<Rightarrow> Input_end
                         | No_value \<Rightarrow> No_value))))"

text \<open>The variables that a call of \<^verbatim>\<open>fscanf\<close> assigns; \<open>None\<close> is a variable that has not been
  assigned yet.\<close>

type_synonym size_vars = "int option \<times> int option \<times> int option"
type_synonym entry_vars = "int option \<times> int option \<times> real option"

text \<open>\<^verbatim>\<open>fscanf(fp,"%d %d %d",&m,&n,&nnz);\<close> The value returned is not looked at; the call
  assigns as many variables as conversions succeed. \<open>None\<close> is a conversion without value.\<close>

definition scan_size_line :: "string \<Rightarrow> (size_vars \<times> string) option" where
  "scan_size_line s =
     (case scan_d s of
        No_value \<Rightarrow> None
      | Input_end \<Rightarrow> Some ((None, None, None), [])
      | Mismatch r \<Rightarrow> Some ((None, None, None), r)
      | Conv a r1 \<Rightarrow>
          (case scan_d r1 of
             No_value \<Rightarrow> None
           | Input_end \<Rightarrow> Some ((Some a, None, None), [])
           | Mismatch r \<Rightarrow> Some ((Some a, None, None), r)
           | Conv b r2 \<Rightarrow>
               (case scan_d r2 of
                  No_value \<Rightarrow> None
                | Input_end \<Rightarrow> Some ((Some a, Some b, None), [])
                | Mismatch r \<Rightarrow> Some ((Some a, Some b, None), r)
                | Conv c r3 \<Rightarrow> Some ((Some a, Some b, Some c), r3))))"

text \<open>\<^verbatim>\<open>fscanf(fp, "%d %d %le", &i, &j, &value) != EOF\<close>: the value of the test, the variables
  after the call and the rest of the input. \<^verbatim>\<open>fscanf\<close> returns \<^verbatim>\<open>EOF\<close> only when the input is
  used up before the first conversion; after a matching failure, or when the input ends
  later, it returns the number of variables assigned (\<open>0\<close>, \<open>1\<close> or \<open>2\<close>) and leaves the other
  variables as they were.\<close>

definition scan_entry :: "entry_vars \<Rightarrow> string \<Rightarrow> (bool \<times> entry_vars \<times> string) option" where
  "scan_entry vars s =
     (case vars of
        (i, j, v) \<Rightarrow>
          (case scan_d s of
             No_value \<Rightarrow> None
           | Input_end \<Rightarrow> Some (False, (i, j, v), [])
           | Mismatch r \<Rightarrow> Some (True, (i, j, v), r)
           | Conv a r1 \<Rightarrow>
               (case scan_d r1 of
                  No_value \<Rightarrow> None
                | Input_end \<Rightarrow> Some (True, (Some a, j, v), [])
                | Mismatch r \<Rightarrow> Some (True, (Some a, j, v), r)
                | Conv b r2 \<Rightarrow>
                    (case scan_le r2 of
                       No_value \<Rightarrow> None
                     | Input_end \<Rightarrow> Some (True, (Some a, Some b, v), [])
                     | Mismatch r \<Rightarrow> Some (True, (Some a, Some b, v), r)
                     | Conv x r3 \<Rightarrow> Some (True, (Some a, Some b, Some x), r3)))))"

subsection \<open>The reader\<close>

text \<open>How a run can fail to produce a matrix: a variable is read that was never assigned
  (its value is indeterminate), a store goes outside an array, a conversion or an \<^verbatim>\<open>int\<close>
  operation has no value, or the routine calls \<^verbatim>\<open>exit\<close>.\<close>

datatype read_error = Indeterminate | Outside_array | Without_value | Exit_code exit_code

text \<open>Modelled from the spec: \<^verbatim>\<open>fasp_dcoo_create\<close> is not part of the sources at hand. The
  spec describes COO as \<open>row, col, nnz, I[0..nnz-1], J[0..nnz-1], val[0..nnz-1]\<close>; the
  arrays are created with \<open>nnz\<close> cells.\<close>

definition fasp_dcoo_create :: "int \<Rightarrow> int \<Rightarrow> int \<Rightarrow> dCOOmat" where
  "fasp_dcoo_create m n nz =
     \<lparr>dCOOmat.row = m, col = n, nnz = nz,
      I = replicate (nat nz) 0, J = replicate (nat nz) 0, val = replicate (nat nz) 0\<rparr>"

text \<open>The three assignments \<^verbatim>\<open>Atmp.I[k]=i; Atmp.J[k]=j; Atmp.val[k]=value\<close>.\<close>

definition coo_store :: "dCOOmat \<Rightarrow> int \<Rightarrow> int \<Rightarrow> int \<Rightarrow> real \<Rightarrow> read_error + dCOOmat" where
  "coo_store Atmp k i j v =
     (case (wr (dCOOmat.I Atmp) k i, wr (dCOOmat.J Atmp) k j, wr (dCOOmat.val Atmp) k v) of
        (Some I', Some J', Some val') \<Rightarrow> Inr (Atmp\<lparr>I := I', J := J', val := val'\<rparr>)
      | _ \<Rightarrow> Inl Outside_array)"

text \<open>The body of the loop once \<^verbatim>\<open>fscanf\<close> has not returned \<^verbatim>\<open>EOF\<close>; the result is the matrix
  and the new \<open>innz\<close>.\<close>

definition dmtxsym_store ::
  "dCOOmat \<Rightarrow> int \<Rightarrow> entry_vars \<Rightarrow> read_error + (dCOOmat \<times> int)" where
  "dmtxsym_store Atmp innz vars =
     (case vars of
        (Some i, Some j, Some v) \<Rightarrow>
          (if i = j then
             (case coo_store Atmp innz (i - 1) (j - 1) v of
                Inl e \<Rightarrow> Inl e
              | Inr Atmp1 \<Rightarrow> Inr (Atmp1, innz + 1))
           else
             (case coo_store Atmp innz (i - 1) (j - 1) v of
                Inl e \<Rightarrow> Inl e
              | Inr Atmp1 \<Rightarrow>
                  (case coo_store Atmp1 (innz + 1) (j - 1) (i - 1) v of
                     Inl e \<Rightarrow> Inl e
                   | Inr Atmp2 \<Rightarrow> Inr (Atmp2, innz + 2))))
      | _ \<Rightarrow> Inl Indeterminate)"

text \<open>The loop \<^verbatim>\<open>while (innz < nnz)\<close>.\<close>

function dmtxsym_loop ::
  "int \<Rightarrow> int \<Rightarrow> entry_vars \<Rightarrow> string \<Rightarrow> dCOOmat \<Rightarrow> read_error + dCOOmat" where
  "dmtxsym_loop nnz_sym innz vars inp Atmp =
     (if innz < nnz_sym then
        (case scan_entry vars inp of
           None \<Rightarrow> Inl Without_value
         | Some (not_eof, vars', rest) \<Rightarrow>
             if not_eof then
               (case dmtxsym_store Atmp innz vars' of
                  Inl e \<Rightarrow> Inl e
                | Inr (Atmp', innz') \<Rightarrow>
                    if innz < innz' then dmtxsym_loop nnz_sym innz' vars' rest Atmp'
                    else Inl Without_value)
             else Inl (Exit_code ERROR_WRONG_FILE))
      else Inr Atmp)"
  by pat_completeness auto
termination
  by (relation "measure (\<lambda>(nnz_sym, innz, vars, inp, Atmp). nat (nnz_sym - innz))") auto

declare dmtxsym_loop.simps [simp del]

text \<open>An \<^verbatim>\<open>INT\<close> operation whose result fits.\<close>

definition in_INT :: "int \<Rightarrow> bool" where
  "in_INT x \<longleftrightarrow> - (2 ^ 31) \<le> x \<and> x < 2 ^ 31"

text \<open>\<open>fasp_dmtxsym_read\<close> up to the COO matrix \<open>Atmp\<close> that it hands to the conversion
  \<^verbatim>\<open>fasp_format_dcoo_dcsr\<close>. The argument is the text of the file, or \<open>None\<close> when \<^verbatim>\<open>fopen\<close>
  fails. The source reuses the variable \<open>nnz\<close>: \<open>nnz_file\<close> is its value after \<^verbatim>\<open>fscanf\<close>,
  \<open>nnz_sym\<close> its value after \<^verbatim>\<open>nnz = 2*(nnz-m) + m\<close>.\<close>

definition fasp_dmtxsym_read :: "string option \<Rightarrow> read_error + dCOOmat" where
  "fasp_dmtxsym_read fp =
     (case fp of
        None \<Rightarrow> Inl (Exit_code ERROR_OPEN_FILE)
      | Some text \<Rightarrow>
          (case scan_size_line text of
             None \<Rightarrow> Inl Without_value
           | Some ((Some m, Some n, Some nnz_file), rest) \<Rightarrow>
               (let nnz_sym = 2 * (nnz_file - m) + m
                in if in_INT (nnz_file - m) \<and> in_INT (2 * (nnz_file - m)) \<and> in_INT nnz_sym
                   then dmtxsym_loop nnz_sym 0 (None, None, None) rest
                          (fasp_dcoo_create m n nnz_sym)
                   else Inl Without_value)
           | Some (_, rest) \<Rightarrow> Inl Indeterminate))"

section \<open>Counted loops\<close>

text \<open>The loop \<^verbatim>\<open>for (j = b; j < e; j++) body\<close> over a state \<open>s\<close>, for a body that neither
  assigns to \<open>j\<close> nor leaves the loop early; the first argument is the current \<open>j\<close>.\<close>

function for_loop :: "int \<Rightarrow> int \<Rightarrow> (int \<Rightarrow> 's \<Rightarrow> 's option) \<Rightarrow> 's \<Rightarrow> 's option" where
  "for_loop j e body s =
     (if j < e then
        (case body j s of None \<Rightarrow> None | Some s' \<Rightarrow> for_loop (j + 1) e body s')
      else Some s)"
  by pat_completeness auto
termination
  by (relation "measure (\<lambda>(j, e, body, s). nat (e - j))") auto

declare for_loop.simps [simp del]

section \<open>Strength matrices and C/F markers (coarsening\_rs.c)\<close>

record iCSRmat =
  row :: int
  col :: int
  nnz :: int
  IA :: "int list"
  JA :: "int list"

text \<open>The markers of a vertex. The header that defines the macros is not part of the sources
  at hand; the values of the first three are those documented at
  \<^verbatim>\<open>fasp_amg_coarsening_rs\<close> (0: fine, 1: coarse, 2: isolated).\<close>

definition FGPT :: int where "FGPT = 0"
definition CGPT :: int where "CGPT = 1"
definition ISPT :: int where "ISPT = 2"

text \<open>The column indices stored in row \<open>i\<close> of a CSR pattern, in storage order.\<close>

definition csr_row :: "int list \<Rightarrow> int list \<Rightarrow> int \<Rightarrow> int list" where
  "csr_row ia ja i = map (\<lambda>j. ja ! nat j) [ia ! nat i .. ia ! nat (i + 1) - 1]"

section \<open>generate\_S (coarsening\_rs.c)\<close>


text \<open>Modelled from the spec: the macro \<^verbatim>\<open>SMALLREAL\<close> is not part of the sources at hand; the
  spec gives \<open>SMALLREAL = 10\<^sup>-\<^sup>2\<^sup>0\<close>.\<close>

definition SMALLREAL :: real where
  "SMALLREAL = 1 / 10 ^ 20"
















text \<open>The positions of row \<open>i\<close> in \<open>JA\<close> and \<open>val\<close>, its stored values, and the position of
  the first entry of the row that lies in column \<open>i\<close>.\<close>

definition row_pos :: "dCSRmat \<Rightarrow> int \<Rightarrow> int list" where
  "row_pos A i = [dCSRmat.IA A ! nat i .. dCSRmat.IA A ! nat (i + 1) - 1]"

definition row_vals :: "dCSRmat \<Rightarrow> int \<Rightarrow> real list" where
  "row_vals A i = map (\<lambda>j. dCSRmat.val A ! nat j) (row_pos A i)"


text \<open>What \<open>generate_S\<close> computes for row \<open>i\<close>: \<open>row_scale\<close> is the least of \<open>0\<close> and all
  stored values of the row, the diagonal one included; \<open>row_sum\<close> is the absolute row sum
  over the absolute diagonal entry (at least \<open>SMALLREAL\<close>).\<close>

definition S_row_scale :: "dCSRmat \<Rightarrow> int \<Rightarrow> real" where
  "S_row_scale A i = foldl min 0 (row_vals A i)"





section \<open>generate\_sparsity\_P (coarsening\_rs.c)\<close>

text \<open>Step 1, the body of the loop over \<open>j\<close> for a fine node \<open>i\<close>:
  \<^verbatim>\<open>k=S->JA[j]; if (vec[k]==CGPT) P->IA[i+1]++;\<close>\<close>

definition sparsity_count_body :: "iCSRmat \<Rightarrow> int list \<Rightarrow> int \<Rightarrow> int \<Rightarrow> int list \<Rightarrow> int list option" where
  "sparsity_count_body S vec i j PIA = do {
     k \<leftarrow> rd (iCSRmat.JA S) j;
     vk \<leftarrow> rd vec k;
     if vk = CGPT then do { c \<leftarrow> rd PIA (i + 1); wr PIA (i + 1) (c + 1) }
     else Some PIA }"

text \<open>Step 1, the body of the loop over \<open>i\<close>.\<close>

definition sparsity_step1_body :: "iCSRmat \<Rightarrow> int list \<Rightarrow> int \<Rightarrow> int list \<Rightarrow> int list option" where
  "sparsity_step1_body S vec i PIA = do {
     vi \<leftarrow> rd vec i;
     if vi = FGPT then do {
       b \<leftarrow> rd (iCSRmat.IA S) i;
       e \<leftarrow> rd (iCSRmat.IA S) (i + 1);
       for_loop b e (sparsity_count_body S vec i) PIA }
     else if vi = ISPT then wr PIA (i + 1) 0
     else wr PIA (i + 1) 1 }"

text \<open>\<^verbatim>\<open>for (i=0;i<P->row;++i) P->IA[i+1]+=P->IA[i];\<close>\<close>

definition sparsity_sum_body :: "int \<Rightarrow> int list \<Rightarrow> int list option" where
  "sparsity_sum_body i PIA = do {
     a \<leftarrow> rd PIA (i + 1);
     b \<leftarrow> rd PIA i;
     wr PIA (i + 1) (a + b) }"

text \<open>Step 2 works on the pair \<open>(P->JA, index)\<close>. The body of the loop over \<open>j\<close> for a fine
  node: \<^verbatim>\<open>k=S->JA[j]; if (vec[k]==CGPT) { P->JA[index]=k; index++; }\<close>\<close>

definition sparsity_fill_body ::
  "iCSRmat \<Rightarrow> int list \<Rightarrow> int \<Rightarrow> int list \<times> int \<Rightarrow> (int list \<times> int) option" where
  "sparsity_fill_body S vec j st = (case st of (PJA, index) \<Rightarrow> do {
     k \<leftarrow> rd (iCSRmat.JA S) j;
     vk \<leftarrow> rd vec k;
     if vk = CGPT then do { PJA' \<leftarrow> wr PJA index k; Some (PJA', index + 1) }
     else Some (PJA, index) })"

text \<open>Step 2, the body of the loop over \<open>i\<close>.\<close>

definition sparsity_step2_body ::
  "iCSRmat \<Rightarrow> int list \<Rightarrow> int \<Rightarrow> int list \<times> int \<Rightarrow> (int list \<times> int) option" where
  "sparsity_step2_body S vec i st = (case st of (PJA, index) \<Rightarrow> do {
     vi \<leftarrow> rd vec i;
     if vi = FGPT then do {
       b \<leftarrow> rd (iCSRmat.IA S) i;
       e \<leftarrow> rd (iCSRmat.IA S) (i + 1);
       for_loop b e (sparsity_fill_body S vec) (PJA, index) }
     else if vi = ISPT then Some (PJA, index)
     else do { PJA' \<leftarrow> wr PJA index i; Some (PJA', index + 1) } })"

text \<open>The whole routine. \<open>vec\<close> is \<^verbatim>\<open>vertices->val\<close>; the result is the matrix \<open>P\<close> that the
  routine fills in. \<^verbatim>\<open>fasp_mem_calloc\<close> returns cells set to zero.\<close>

definition generate_sparsity_P :: "iCSRmat \<Rightarrow> int list \<Rightarrow> int \<Rightarrow> int \<Rightarrow> dCSRmat option" where
  "generate_sparsity_P S vec row_P col_P = do {
     PIA0 \<leftarrow> Some (replicate (nat (row_P + 1)) 0);
     PIA1 \<leftarrow> for_loop 0 row_P (sparsity_step1_body S vec) PIA0;
     PIA2 \<leftarrow> for_loop 0 row_P sparsity_sum_body PIA1;
     last \<leftarrow> rd PIA2 row_P;
     first \<leftarrow> rd PIA2 0;
     nnz_P \<leftarrow> Some (last - first);
     (PJA, index) \<leftarrow> for_loop 0 row_P (sparsity_step2_body S vec)
                       (replicate (nat nnz_P) 0, 0);
     Some \<lparr>dCSRmat.row = row_P, col = col_P, nnz = nnz_P,
           IA = PIA2, JA = PJA, val = replicate (nat nnz_P) 0\<rparr> }"

text \<open>The row of the interpolation pattern that vertex \<open>i\<close> is to get: the coarse columns of
  row \<open>i\<close> of \<open>S\<close> for a fine vertex, nothing for an isolated one, the single column \<open>i\<close>
  otherwise.\<close>

definition P_row :: "iCSRmat \<Rightarrow> int list \<Rightarrow> int \<Rightarrow> int list" where
  "P_row S vec i =
     (if vec ! nat i = FGPT
      then filter (\<lambda>k. vec ! nat k = CGPT) (csr_row (iCSRmat.IA S) (iCSRmat.JA S) i)
      else if vec ! nat i = ISPT then [] else [i])"

text \<open>The number of entries of the rows \<open>0, \<dots>, k - 1\<close> together.\<close>

definition P_psum :: "iCSRmat \<Rightarrow> int list \<Rightarrow> nat \<Rightarrow> nat" where
  "P_psum S vec k = (\<Sum>m<k. length (P_row S vec (int m)))"

section \<open>Small dense blocks (blas\_smat.c)\<close>

text \<open>A pointer into the middle of an array, such as \<^verbatim>\<open>diaginv+start_DATA\<close>, is passed as the
  array together with the offset. In \<open>fasp_blas_smat_mxv\<close> the matrix is \<open>a\<close> at offset \<open>ao\<close>,
  the vector \<open>b\<close>, and the result \<open>c\<close> at offset \<open>co\<close>; the three arrays are distinct in all
  calls considered here.\<close>

definition fasp_blas_smat_mxv_nc2 ::
  "real list \<Rightarrow> int \<Rightarrow> real list \<Rightarrow> real list \<Rightarrow> int \<Rightarrow> real list option" where
  "fasp_blas_smat_mxv_nc2 a ao b c co = do {
     b0 \<leftarrow> rd b 0;
     b1 \<leftarrow> rd b 1;
     a0 \<leftarrow> rd a (ao + 0);
     a1 \<leftarrow> rd a (ao + 1);
     c0 \<leftarrow> wr c (co + 0) (a0 * b0 + a1 * b1);
     a2 \<leftarrow> rd a (ao + 2);
     a3 \<leftarrow> rd a (ao + 3);
     wr c0 (co + 1) (a2 * b0 + a3 * b1) }"

definition fasp_blas_smat_mxv_nc3 ::
  "real list \<Rightarrow> int \<Rightarrow> real list \<Rightarrow> real list \<Rightarrow> int \<Rightarrow> real list option" where
  "fasp_blas_smat_mxv_nc3 a ao b c co = do {
     b0 \<leftarrow> rd b 0;
     b1 \<leftarrow> rd b 1;
     b2 \<leftarrow> rd b 2;
     a0 \<leftarrow> rd a (ao + 0);
     a1 \<leftarrow> rd a (ao + 1);
     a2 \<leftarrow> rd a (ao + 2);
     c0 \<leftarrow> wr c (co + 0) (a0 * b0 + a1 * b1 + a2 * b2);
     a3 \<leftarrow> rd a (ao + 3);
     a4 \<leftarrow> rd a (ao + 4);
     a5 \<leftarrow> rd a (ao + 5);
     c1 \<leftarrow> wr c0 (co + 1) (a3 * b0 + a4 * b1 + a5 * b2);
     a6 \<leftarrow> rd a (ao + 6);
     a7 \<leftarrow> rd a (ao + 7);
     a8 \<leftarrow> rd a (ao + 8);
     wr c1 (co + 2) (a6 * b0 + a7 * b1 + a8 * b2) }"

definition fasp_blas_smat_mxv_nc5 ::
  "real list \<Rightarrow> int \<Rightarrow> real list \<Rightarrow> real list \<Rightarrow> int \<Rightarrow> real list option" where
  "fasp_blas_smat_mxv_nc5 a ao b c co = do {
     b0 \<leftarrow> rd b 0;
     b1 \<leftarrow> rd b 1;
     b2 \<leftarrow> rd b 2;
     b3 \<leftarrow> rd b 3;
     b4 \<leftarrow> rd b 4;
     a0 \<leftarrow> rd a (ao + 0);
     a1 \<leftarrow> rd a (ao + 1);
     a2 \<leftarrow> rd a (ao + 2);
     a3 \<leftarrow> rd a (ao + 3);
     a4 \<leftarrow> rd a (ao + 4);
     c0 \<leftarrow> wr c (co + 0) (a0 * b0 + a1 * b1 + a2 * b2 + a3 * b3 + a4 * b4);
     a5 \<leftarrow> rd a (ao + 5);
     a6 \<leftarrow> rd a (ao + 6);
     a7 \<leftarrow> rd a (ao + 7);
     a8 \<leftarrow> rd a (ao + 8);
     a9 \<leftarrow> rd a (ao + 9);
     c1 \<leftarrow> wr c0 (co + 1) (a5 * b0 + a6 * b1 + a7 * b2 + a8 * b3 + a9 * b4);
     a10 \<leftarrow> rd a (ao + 10);
     a11 \<leftarrow> rd a (ao + 11);
     a12 \<leftarrow> rd a (ao + 12);
     a13 \<leftarrow> rd a (ao + 13);
     a14 \<leftarrow> rd a (ao + 14);
     c2 \<leftarrow> wr c1 (co + 2) (a10 * b0 + a11 * b1 + a12 * b2 + a13 * b3 + a14 * b4);
     a15 \<leftarrow> rd a (ao + 15);
     a16 \<leftarrow> rd a (ao + 16);
     a17 \<leftarrow> rd a (ao + 17);
     a18 \<leftarrow> rd a (ao + 18);
     a19 \<leftarrow> rd a (ao + 19);
     c3 \<leftarrow> wr c2 (co + 3) (a15 * b0 + a16 * b1 + a17 * b2 + a18 * b3 + a19 * b4);
     a20 \<leftarrow> rd a (ao + 20);
     a21 \<leftarrow> rd a (ao + 21);
     a22 \<leftarrow> rd a (ao + 22);
     a23 \<leftarrow> rd a (ao + 23);
     a24 \<leftarrow> rd a (ao + 24);
     wr c3 (co + 4) (a20 * b0 + a21 * b1 + a22 * b2 + a23 * b3 + a24 * b4) }"

definition fasp_blas_smat_mxv_nc7 ::
  "real list \<Rightarrow> int \<Rightarrow> real list \<Rightarrow> real list \<Rightarrow> int \<Rightarrow> real list option" where
  "fasp_blas_smat_mxv_nc7 a ao b c co = do {
     b0 \<leftarrow> rd b 0;
     b1 \<leftarrow> rd b 1;
     b2 \<leftarrow> rd b 2;
     b3 \<leftarrow> rd b 3;
     b4 \<leftarrow> rd b 4;
     b5 \<leftarrow> rd b 5;
     b6 \<leftarrow> rd b 6;
     a0 \<leftarrow> rd a (ao + 0);
     a1 \<leftarrow> rd a (ao + 1);
     a2 \<leftarrow> rd a (ao + 2);
     a3 \<leftarrow> rd a (ao + 3);
     a4 \<leftarrow> rd a (ao + 4);
     a5 \<leftarrow> rd a (ao + 5);
     a6 \<leftarrow> rd a (ao + 6);
     c0 \<leftarrow> wr c (co + 0) (a0 * b0 + a1 * b1 + a2 * b2 + a3 * b3 + a4 * b4 + a5 * b5 + a6 * b6);
     a7 \<leftarrow> rd a (ao + 7);
     a8 \<leftarrow> rd a (ao + 8);
     a9 \<leftarrow> rd a (ao + 9);
     a10 \<leftarrow> rd a (ao + 10);
     a11 \<leftarrow> rd a (ao + 11);
     a12 \<leftarrow> rd a (ao + 12);
     a13 \<leftarrow> rd a (ao + 13);
     c1 \<leftarrow> wr c0 (co + 1) (a7 * b0 + a8 * b1 + a9 * b2 + a10 * b3 + a11 * b4 + a12 * b5 + a13 * b6);
     a14 \<leftarrow> rd a (ao + 14);
     a15 \<leftarrow> rd a (ao + 15);
     a16 \<leftarrow> rd a (ao + 16);
     a17 \<leftarrow> rd a (ao + 17);
     a18 \<leftarrow> rd a (ao + 18);
     a19 \<leftarrow> rd a (ao + 19);
     a20 \<leftarrow> rd a (ao + 20);
     c2 \<leftarrow> wr c1 (co + 2) (a14 * b0 + a15 * b1 + a16 * b2 + a17 * b3 + a18 * b4 + a19 * b5 + a20 * b6);
     a21 \<leftarrow> rd a (ao + 21);
     a22 \<leftarrow> rd a (ao + 22);
     a23 \<leftarrow> rd a (ao + 23);
     a24 \<leftarrow> rd a (ao + 24);
     a25 \<leftarrow> rd a (ao + 25);
     a26 \<leftarrow> rd a (ao + 26);
     a27 \<leftarrow> rd a (ao + 27);
     c3 \<leftarrow> wr c2 (co + 3) (a21 * b0 + a22 * b1 + a23 * b2 + a24 * b3 + a25 * b4 + a26 * b5 + a27 * b6);
     a28 \<leftarrow> rd a (ao + 28);
     a29 \<leftarrow> rd a (ao + 29);
     a30 \<leftarrow> rd a (ao + 30);
     a31 \<leftarrow> rd a (ao + 31);
     a32 \<leftarrow> rd a (ao + 32);
     a33 \<leftarrow> rd a (ao + 33);
     a34 \<leftarrow> rd a (ao + 34);
     c4 \<leftarrow> wr c3 (co + 4) (a28 * b0 + a29 * b1 + a30 * b2 + a31 * b3 + a32 * b4 + a33 * b5 + a34 * b6);
     a35 \<leftarrow> rd a (ao + 35);
     a36 \<leftarrow> rd a (ao + 36);
     a37 \<leftarrow> rd a (ao + 37);
     a38 \<leftarrow> rd a (ao + 38);
     a39 \<leftarrow> rd a (ao + 39);
     a40 \<leftarrow> rd a (ao + 40);
     a41 \<leftarrow> rd a (ao + 41);
     c5 \<leftarrow> wr c4 (co + 5) (a35 * b0 + a36 * b1 + a37 * b2 + a38 * b3 + a39 * b4 + a40 * b5 + a41 * b6);
     a42 \<leftarrow> rd a (ao + 42);
     a43 \<leftarrow> rd a (ao + 43);
     a44 \<leftarrow> rd a (ao + 44);
     a45 \<leftarrow> rd a (ao + 45);
     a46 \<leftarrow> rd a (ao + 46);
     a47 \<leftarrow> rd a (ao + 47);
     a48 \<leftarrow> rd a (ao + 48);
     wr c5 (co + 6) (a42 * b0 + a43 * b1 + a44 * b2 + a45 * b3 + a46 * b4 + a47 * b5 + a48 * b6) }"

text \<open>The default branch: \<^verbatim>\<open>temp = 0.0; for (j=0; j<n; ++j) temp += a[in+j]*b[j]; c[i]=temp;\<close>
  with \<^verbatim>\<open>in = i*n\<close>.\<close>

definition mxv_dot_body :: "real list \<Rightarrow> int \<Rightarrow> real list \<Rightarrow> int \<Rightarrow> real \<Rightarrow> real option" where
  "mxv_dot_body a base b j temp = do {
     x \<leftarrow> rd a (base + j);
     y \<leftarrow> rd b j;
     Some (temp + x * y) }"

definition mxv_row_body ::
  "real list \<Rightarrow> int \<Rightarrow> real list \<Rightarrow> int \<Rightarrow> int \<Rightarrow> int \<Rightarrow> real list \<Rightarrow> real list option" where
  "mxv_row_body a ao b co n i c = do {
     temp \<leftarrow> for_loop 0 n (mxv_dot_body a (ao + i * n) b) 0;
     wr c (co + i) temp }"

definition fasp_blas_smat_mxv ::
  "real list \<Rightarrow> int \<Rightarrow> real list \<Rightarrow> real list \<Rightarrow> int \<Rightarrow> int \<Rightarrow> real list option" where
  "fasp_blas_smat_mxv a ao b c co n =
     (if n = 2 then fasp_blas_smat_mxv_nc2 a ao b c co
      else if n = 3 then fasp_blas_smat_mxv_nc3 a ao b c co
      else if n = 5 then fasp_blas_smat_mxv_nc5 a ao b c co
      else if n = 7 then fasp_blas_smat_mxv_nc7 a ao b c co
      else for_loop 0 n (mxv_row_body a ao b co n) c)"

section \<open>Smoothers for structured matrices (smoother\_str.c)\<close>

text \<open>The fields of \<^verbatim>\<open>dSTRmat\<close> that the smoothers read.\<close>

record dSTRmat =
  ngrid :: int
  nc :: int
  nband :: int
  offsets :: "int list"
  diag :: "real list"
  offdiag :: "real list list"

text \<open>A division whose result is stored in the iterate. The model stops with \<open>None\<close> at a
  zero divisor, where C would go on with an infinity or a NaN.\<close>

definition div_checked :: "real \<Rightarrow> real \<Rightarrow> real option" where
  "div_checked x y = (if y = 0 then None else Some (x / y))"

text \<open>\<open>blkcontr2_str\<close>: \<^verbatim>\<open>y[m] -= data[k+j]*x[start_vecx+j]\<close> with \<^verbatim>\<open>k = start_data + i*nc\<close> and
  \<open>m = i\<close> when \<open>start_vecy = 0\<close>, \<open>m = start_vecy + i\<close> otherwise.\<close>

definition blkcontr2_inner ::
  "real list \<Rightarrow> real list \<Rightarrow> int \<Rightarrow> int \<Rightarrow> int \<Rightarrow> int \<Rightarrow> real list \<Rightarrow> real list option" where
  "blkcontr2_inner data x k start_vecx m j y = do {
     ym \<leftarrow> rd y m;
     d \<leftarrow> rd data (k + j);
     xv \<leftarrow> rd x (start_vecx + j);
     wr y m (ym - d * xv) }"

definition blkcontr2_str ::
  "int \<Rightarrow> int \<Rightarrow> int \<Rightarrow> int \<Rightarrow> real list \<Rightarrow> real list \<Rightarrow> real list \<Rightarrow> real list option" where
  "blkcontr2_str start_data start_vecx start_vecy n data x y =
     (if start_vecy = 0 then
        for_loop 0 n (\<lambda>i. for_loop 0 n (blkcontr2_inner data x (start_data + i * n) start_vecx i)) y
      else
        for_loop 0 n (\<lambda>i. for_loop 0 n
           (blkcontr2_inner data x (start_data + i * n) start_vecx (start_vecy + i))) y)"

text \<open>\<open>saAxpby\<close>: \<open>y := alpha*A*x + beta*y\<close> in four passes over \<open>y\<close>, here with \<open>sz\<close> for \<^verbatim>\<open>size\<close>, \<open>A\<close> at offset
  \<open>ao\<close> and \<open>y\<close> at offset \<open>yo\<close>.\<close>

definition scale_body :: "int \<Rightarrow> real \<Rightarrow> int \<Rightarrow> real list \<Rightarrow> real list option" where
  "scale_body yo t i y = do { v \<leftarrow> rd y (yo + i); wr y (yo + i) (v * t) }"

definition saAxpby_add_body ::
  "real list \<Rightarrow> int \<Rightarrow> real list \<Rightarrow> int \<Rightarrow> int \<Rightarrow> int \<Rightarrow> int \<Rightarrow> real list \<Rightarrow> real list option" where
  "saAxpby_add_body A ao x yo sz i j y = do {
     v \<leftarrow> rd y (yo + i);
     av \<leftarrow> rd A (ao + (i * sz + j));
     xv \<leftarrow> rd x j;
     wr y (yo + i) (v + av * xv) }"

definition saAxpby ::
  "real \<Rightarrow> real \<Rightarrow> int \<Rightarrow> real list \<Rightarrow> int \<Rightarrow> real list \<Rightarrow> real list \<Rightarrow> int \<Rightarrow> real list option" where
  "saAxpby alpha beta sz A ao x y yo =
     (if alpha = 0 then for_loop 0 sz (scale_body yo beta) y
      else do {
        tmp \<leftarrow> div_checked beta alpha;
        y1 \<leftarrow> for_loop 0 sz (scale_body yo tmp) y;
        y2 \<leftarrow> for_loop 0 sz (\<lambda>i. for_loop 0 sz (saAxpby_add_body A ao x yo sz i)) y1;
        for_loop 0 sz (scale_body yo alpha) y2 })"

text \<open>The loop over the bands for one grid point when \<open>nc = 1\<close>; the state is \<open>rhs\<close>.\<close>

definition str_band_point :: "dSTRmat \<Rightarrow> real list \<Rightarrow> int \<Rightarrow> int \<Rightarrow> real \<Rightarrow> real option" where
  "str_band_point A u_val point band rhs = do {
     width \<leftarrow> rd (offsets A) band;
     column \<leftarrow> Some (point + width);
     if width < 0 then
       (if column \<ge> 0 then do {
          ob \<leftarrow> rd (offdiag A) band;
          od \<leftarrow> rd ob column;
          uc \<leftarrow> rd u_val column;
          Some (rhs - od * uc) }
        else Some rhs)
     else
       (if column < ngrid A then do {
          ob \<leftarrow> rd (offdiag A) band;
          od \<leftarrow> rd ob point;
          uc \<leftarrow> rd u_val column;
          Some (rhs - od * uc) }
        else Some rhs) }"

text \<open>The loop over the bands for one block when \<open>nc > 1\<close>; the state is \<open>vec_tmp\<close>.\<close>

definition str_band_block :: "dSTRmat \<Rightarrow> real list \<Rightarrow> int \<Rightarrow> int \<Rightarrow> real list \<Rightarrow> real list option" where
  "str_band_block A u_val block band vec_tmp = do {
     width \<leftarrow> rd (offsets A) band;
     column \<leftarrow> Some (block + width);
     if width < 0 then
       (if column \<ge> 0 then do {
          ob \<leftarrow> rd (offdiag A) band;
          blkcontr2_str (nc A * nc A * column) (nc A * column) 0 (nc A) ob u_val vec_tmp }
        else Some vec_tmp)
     else
       (if column < ngrid A then do {
          ob \<leftarrow> rd (offdiag A) band;
          blkcontr2_str (nc A * nc A * block) (nc A * column) 0 (nc A) ob u_val vec_tmp }
        else Some vec_tmp) }"

text \<open>\<^verbatim>\<open>vec_tmp[point] = b_val[ncb+point]\<close>\<close>

definition str_load_body :: "real list \<Rightarrow> int \<Rightarrow> int \<Rightarrow> real list \<Rightarrow> real list option" where
  "str_load_body b_val ncb point vec_tmp = do {
     v \<leftarrow> rd b_val (ncb + point);
     wr vec_tmp point v }"

text \<open>Gauss-Seidel, ascending. The state of the loop over the points (\<open>nc = 1\<close>) is
  \<open>u_val\<close>; the state of the loop over the blocks (\<open>nc > 1\<close>) is \<open>(u_val, vec_tmp)\<close>. The
  result is the new \<open>u_val\<close>.\<close>

definition gs_point_body :: "dSTRmat \<Rightarrow> real list \<Rightarrow> int \<Rightarrow> real list \<Rightarrow> real list option" where
  "gs_point_body A b_val point u_val = do {
     rhs0 \<leftarrow> rd b_val point;
     rhs \<leftarrow> for_loop 0 (nband A) (str_band_point A u_val point) rhs0;
     d \<leftarrow> rd (diag A) point;
     q \<leftarrow> div_checked rhs d;
     wr u_val point q }"

definition gs_block_body ::
  "dSTRmat \<Rightarrow> real list \<Rightarrow> real list \<Rightarrow> int \<Rightarrow> real list \<times> real list \<Rightarrow> (real list \<times> real list) option" where
  "gs_block_body A b_val diaginv block st = (case st of (u_val, vec_tmp) \<Rightarrow> do {
     vec_tmp1 \<leftarrow> for_loop 0 (nc A) (str_load_body b_val (nc A * block)) vec_tmp;
     vec_tmp2 \<leftarrow> for_loop 0 (nband A) (str_band_block A u_val block) vec_tmp1;
     u_val' \<leftarrow> fasp_blas_smat_mxv diaginv (nc A * nc A * block) vec_tmp2 u_val (nc A * block) (nc A);
     Some (u_val', vec_tmp2) })"

definition fasp_smoother_dstr_gs_ascend ::
  "dSTRmat \<Rightarrow> real list \<Rightarrow> real list \<Rightarrow> real list \<Rightarrow> real list option" where
  "fasp_smoother_dstr_gs_ascend A b_val u_val diaginv =
     (if nc A = 1 then for_loop 0 (ngrid A) (gs_point_body A b_val) u_val
      else if nc A > 1 then
        map_option fst
          (for_loop 0 (ngrid A) (gs_block_body A b_val diaginv) (u_val, replicate (nat (nc A)) 0))
      else Some u_val)"

text \<open>SOR, ascending, with \<open>one_minus_weight = 1.0 - weight\<close>.\<close>

definition sor_point_body :: "dSTRmat \<Rightarrow> real list \<Rightarrow> real \<Rightarrow> int \<Rightarrow> real list \<Rightarrow> real list option" where
  "sor_point_body A b_val weight point u_val = do {
     rhs0 \<leftarrow> rd b_val point;
     rhs \<leftarrow> for_loop 0 (nband A) (str_band_point A u_val point) rhs0;
     up \<leftarrow> rd u_val point;
     d \<leftarrow> rd (diag A) point;
     q \<leftarrow> div_checked rhs d;
     wr u_val point ((1 - weight) * up + weight * q) }"

definition sor_block_body ::
  "dSTRmat \<Rightarrow> real list \<Rightarrow> real list \<Rightarrow> real \<Rightarrow> int \<Rightarrow> real list \<times> real list
     \<Rightarrow> (real list \<times> real list) option" where
  "sor_block_body A b_val diaginv weight block st = (case st of (u_val, vec_tmp) \<Rightarrow> do {
     vec_tmp1 \<leftarrow> for_loop 0 (nc A) (str_load_body b_val (nc A * block)) vec_tmp;
     vec_tmp2 \<leftarrow> for_loop 0 (nband A) (str_band_block A u_val block) vec_tmp1;
     u_val' \<leftarrow> saAxpby weight (1 - weight) (nc A) diaginv (nc A * nc A * block) vec_tmp2
                 u_val (nc A * block);
     Some (u_val', vec_tmp2) })"

definition fasp_smoother_dstr_sor_ascend ::
  "dSTRmat \<Rightarrow> real list \<Rightarrow> real list \<Rightarrow> real list \<Rightarrow> real \<Rightarrow> real list option" where
  "fasp_smoother_dstr_sor_ascend A b_val u_val diaginv weight =
     (if nc A = 1 then for_loop 0 (ngrid A) (sor_point_body A b_val weight) u_val
      else if nc A > 1 then
        map_option fst
          (for_loop 0 (ngrid A) (sor_block_body A b_val diaginv weight)
             (u_val, replicate (nat (nc A)) 0))
      else Some u_val)"

text \<open>The product of a dense \<open>n \<times> n\<close> block, stored by rows in \<open>a\<close> from offset \<open>ao\<close>, with the
  vector \<open>b\<close>, written to the cells \<open>co, \<dots>, co + n - 1\<close> of \<open>c\<close>: entry \<open>i\<close> of the product,
  the cells that a run touches, and the resulting array.\<close>

definition block_dot :: "real list \<Rightarrow> int \<Rightarrow> real list \<Rightarrow> int \<Rightarrow> int \<Rightarrow> real" where
  "block_dot a ao b n i = sum_list (map (\<lambda>j. a ! nat (ao + i * n + j) * b ! nat j) [0 .. n - 1])"

definition block_inb :: "real list \<Rightarrow> int \<Rightarrow> real list \<Rightarrow> real list \<Rightarrow> int \<Rightarrow> int \<Rightarrow> bool" where
  "block_inb a ao b c co n \<longleftrightarrow>
     0 \<le> ao \<and> ao + n * n \<le> int (length a) \<and> n \<le> int (length b)
     \<and> 0 \<le> co \<and> co + n \<le> int (length c)"

definition block_result ::
  "real list \<Rightarrow> int \<Rightarrow> real list \<Rightarrow> real list \<Rightarrow> int \<Rightarrow> int \<Rightarrow> real list \<Rightarrow> bool" where
  "block_result a ao b c co n r \<longleftrightarrow>
     length r = length c \<and>
     (\<forall>m < length c. r ! m =
        (if co \<le> int m \<and> int m < co + n then block_dot a ao b n (int m - co) else c ! m))"

section \<open>Operations on arrays of reals\<close>

text \<open>Modelled from the spec: the sequential routines \<^verbatim>\<open>fasp_blas_array_*\<close> and
  \<^verbatim>\<open>fasp_array_cp\<close> are not part of the sources at hand (their OpenMP twins in
  \<^verbatim>\<open>blas_array_omp.c\<close> are). The spec lists them under Vector Algebra: axpy
  (\<open>y \<leftarrow> \<alpha> x + y\<close>), axpby (\<open>y \<leftarrow> \<alpha> x + \<beta> y\<close>), dot, the \<open>L\<^sup>2\<close> and \<open>L\<^sup>\<infinity>\<close> norms, copy. All
  vectors of one solve have the length \<open>m\<close> of the right-hand side, so the operations are
  written over whole lists and a copy is an assignment.\<close>

definition fasp_blas_array_axpy :: "real \<Rightarrow> real list \<Rightarrow> real list \<Rightarrow> real list" where
  "fasp_blas_array_axpy a x y = map2 (\<lambda>xi yi. yi + a * xi) x y"

definition fasp_blas_array_axpby :: "real \<Rightarrow> real list \<Rightarrow> real \<Rightarrow> real list \<Rightarrow> real list" where
  "fasp_blas_array_axpby a x b y = map2 (\<lambda>xi yi. a * xi + b * yi) x y"

definition fasp_blas_array_dotprod :: "real list \<Rightarrow> real list \<Rightarrow> real" where
  "fasp_blas_array_dotprod x y = sum_list (map2 (\<lambda>xi yi. xi * yi) x y)"

definition fasp_blas_array_norm2 :: "real list \<Rightarrow> real" where
  "fasp_blas_array_norm2 x = sqrt (fasp_blas_array_dotprod x x)"

definition fasp_blas_array_norminf :: "real list \<Rightarrow> real" where
  "fasp_blas_array_norminf x = foldl (\<lambda>infnorm xi. max infnorm \<bar>xi\<bar>) 0 x"

text \<open>Modelled from the spec: \<^verbatim>\<open>fasp_blas_dcsr_mxv\<close> (\<open>y = A x\<close>) is not part of the sources
  at hand; the spec's SpMV contract for CSR, with the layout of its data model: row \<open>i\<close>
  owns the positions \<open>IA[i], \<dots>, IA[i+1] - 1\<close> of \<open>JA\<close> and \<open>val\<close>.\<close>

definition fasp_blas_dcsr_mxv :: "dCSRmat \<Rightarrow> real list \<Rightarrow> real list" where
  "fasp_blas_dcsr_mxv A x =
     map (\<lambda>i. sum_list (map (\<lambda>k. dCSRmat.val A ! nat k * x ! nat (dCSRmat.JA A ! nat k))
                           [dCSRmat.IA A ! i .. dCSRmat.IA A ! Suc i - 1]))
         [0 ..< nat (dCSRmat.row A)]"

section \<open>BiCGstab with safe net (spbcgs.c)\<close>

text \<open>The four solvers of the file (for \<^verbatim>\<open>dCSRmat\<close>, \<^verbatim>\<open>dBSRmat\<close>, \<^verbatim>\<open>block_dCSRmat\<close> and
  \<^verbatim>\<open>dSTRmat\<close>) have the same text up to the type of \<open>A\<close> and the name of the routine that
  multiplies by \<open>A\<close>. The model is written once, over the map \<open>mxv\<close> of the matrix
  (\<open>x \<mapsto> A x\<close>); \<^verbatim>\<open>aAxpy(-1.0, A, x, r)\<close> is \<open>r \<leftarrow> r - A x\<close>.\<close>

datatype stop_type = STOP_REL_RES | STOP_REL_PRECRES | STOP_MOD_REL_RES | STOP_UNKNOWN

text \<open>The negative codes that the solver stores in \<open>iter\<close>; \<open>iter\<close> holds either an iteration
  count or such a code.\<close>

datatype solver_error =
  ERROR_SOLVER_MAXIT | ERROR_SOLVER_STAG | ERROR_SOLVER_SOLSTAG | ERROR_SOLVER_TOLSMALL

datatype iter_value = Count int | Code solver_error

text \<open>How control leaves the main loop: \<^verbatim>\<open>goto FINISHED\<close> (with the value of \<open>iter\<close> at that
  moment), \<^verbatim>\<open>goto RESTORE_BESTSOL\<close>, \<^verbatim>\<open>break\<close>, or the loop test \<^verbatim>\<open>iter++ < MaxIt\<close> failing.\<close>

datatype leave = FINISHED iter_value | RESTORE_BESTSOL | BREAK | LOOP_END

datatype 'a flow = Next 'a | Leave leave 'a

text \<open>Modelled from the spec: the header with the macros is not part of the sources at hand.
  The spec gives \<open>BIGREAL = 10\<^sup>3\<^sup>6\<close>, \<open>STAG_RATIO = 1e-2\<close>, and \<open>MaxStag\<close> and \<open>MaxRestart\<close> as
  fixed, typically 20 and 20. The macros \<^verbatim>\<open>ITS_DIVZERO\<close>, \<^verbatim>\<open>ITS_SMALLSP\<close>, \<^verbatim>\<open>ITS_RESTART\<close> and
  their like stand where the source guards them by the print level; they print and have no
  effect on the state.\<close>

definition BIGREAL :: real where "BIGREAL = 10 ^ 36"
definition STAG_RATIO :: real where "STAG_RATIO = 1 / 100"
definition MAX_STAG :: int where "MAX_STAG = 20"
definition MAX_RESTART :: int where "MAX_RESTART = 20"

text \<open>The arguments of a solve; \<open>pc = None\<close> is the null pointer. A preconditioner is a
  function from the residual to the correction.\<close>

record spbcgs_args =
  mxv :: "real list \<Rightarrow> real list"
  bval :: "real list"
  pc :: "(real list \<Rightarrow> real list) option"
  tol :: real
  MaxIt :: int
  stop :: stop_type

text \<open>The local variables. The work vectors \<open>p, z, r, t, rho, pp, s, sp\<close> carry the prefix
  \<open>w_\<close>; \<open>iter\<close> is passed separately.\<close>

record spbcgs_state =
  uval :: "real list"
  w_p :: "real list"
  w_z :: "real list"
  w_r :: "real list"
  w_t :: "real list"
  w_rho :: "real list"
  w_pp :: "real list"
  w_s :: "real list"
  w_sp :: "real list"
  u_best :: "real list"
  stag :: int
  more_step :: int
  restart_step :: int
  alpha :: real
  beta :: real
  omega :: real
  temp1 :: real
  temp2 :: real
  tempr :: real
  absres0 :: real
  absres :: real
  relres :: real
  normu :: real
  normr0 :: real
  reldiff :: real
  normd :: real
  infnormu :: real
  iter_best :: int
  absres_best :: real

definition maxdiff :: "spbcgs_args \<Rightarrow> real" where
  "maxdiff c = tol c * STAG_RATIO"

definition TOL_s :: "spbcgs_args \<Rightarrow> real" where
  "TOL_s c = tol c * (1 / 100)"

text \<open>\<^verbatim>\<open>if ( pc != NULL ) pc->fct(x,y,pc->data); else fasp_array_cp(m,x,y);\<close>\<close>

definition precond :: "spbcgs_args \<Rightarrow> real list \<Rightarrow> real list" where
  "precond c x = (case pc c of None \<Rightarrow> x | Some fct \<Rightarrow> fct x)"

text \<open>\<^verbatim>\<open>fasp_array_cp(m,bval,r); fasp_blas_dcsr_aAxpy(-1.0,A,x,r);\<close>\<close>

definition true_residual :: "spbcgs_args \<Rightarrow> real list \<Rightarrow> real list" where
  "true_residual c x = fasp_blas_array_axpy (- 1) (mxv c x) (bval c)"

text \<open>Sequencing of steps that may leave the loop; \<open>None\<close> is a division by zero, where
  the run leaves the real numbers.\<close>

definition flow_bind :: "'a flow option \<Rightarrow> ('a \<Rightarrow> 'a flow option) \<Rightarrow> 'a flow option" where
  "flow_bind x f =
     (case x of None \<Rightarrow> None | Some (Leave l s) \<Rightarrow> Some (Leave l s) | Some (Next s) \<Rightarrow> f s)"

text \<open>From \<^verbatim>\<open>pp = precond(p)\<close> to \<^verbatim>\<open>alpha = (r,rho)/(A*p,rho)\<close>.\<close>

definition step_alpha :: "spbcgs_args \<Rightarrow> int \<Rightarrow> spbcgs_state \<Rightarrow> spbcgs_state flow option" where
  "step_alpha c iter st =
     (let pp' = precond c (w_p st);
          z' = mxv c pp';
          temp2' = fasp_blas_array_dotprod z' (w_rho st);
          st1 = st\<lparr>w_pp := pp', w_z := z', temp2 := temp2'\<rparr>
      in if \<bar>temp2'\<bar> > SMALLREAL
         then Some (Next (st1\<lparr>alpha := temp1 st / temp2'\<rparr>))
         else Some (Leave (FINISHED (Count iter)) st1))"

text \<open>From \<^verbatim>\<open>s = r - alpha z\<close> to \<^verbatim>\<open>omega = (t,s)/(t,t)\<close>.\<close>

definition step_omega :: "spbcgs_args \<Rightarrow> spbcgs_state \<Rightarrow> spbcgs_state" where
  "step_omega c st =
     (let s' = fasp_blas_array_axpy (- alpha st) (w_z st) (w_r st);
          sp' = precond c s';
          t' = mxv c sp';
          tempr' = fasp_blas_array_dotprod t' t';
          omega' = (if \<bar>tempr'\<bar> > SMALLREAL then fasp_blas_array_dotprod s' t' / tempr' else 0)
      in st\<lparr>w_s := s', w_sp := sp', w_t := t', tempr := tempr', omega := omega'\<rparr>)"

text \<open>From \<^verbatim>\<open>delu = alpha pp + omega sp\<close> to the test of \<^verbatim>\<open>normd < TOL_s\<close>.\<close>

definition step_update :: "spbcgs_args \<Rightarrow> int \<Rightarrow> spbcgs_state \<Rightarrow> spbcgs_state flow option" where
  "step_update c iter st =
     (let sp' = fasp_blas_array_axpby (alpha st) (w_pp st) (omega st) (w_sp st);
          u' = fasp_blas_array_axpy 1 sp' (uval st);
          s' = fasp_blas_array_axpy (- omega st) (w_t st) (w_s st);
          r' = s';
          temp2' = temp1 st;
          temp1' = fasp_blas_array_dotprod r' (w_rho st);
          st1 = st\<lparr>w_sp := sp', uval := u', w_s := s', w_r := r', temp2 := temp2', temp1 := temp1'\<rparr>
      in if \<bar>temp2'\<bar> > SMALLREAL then
           (case div_checked (temp1' * alpha st) (temp2' * omega st) of
              None \<Rightarrow> None
            | Some beta' \<Rightarrow>
               (let p1 = fasp_blas_array_axpy (- omega st) (w_z st) (w_p st);
                    p' = fasp_blas_array_axpby 1 r' beta' p1;
                    normd' = fasp_blas_array_norm2 sp';
                    normu' = fasp_blas_array_norm2 u'
                in case div_checked normd' normu' of
                     None \<Rightarrow> None
                   | Some reldiff' \<Rightarrow>
                      (let st2 = st1\<lparr>beta := beta', w_p := p', normd := normd', normu := normu',
                                      reldiff := reldiff'\<rparr>
                       in if normd' < TOL_s c then Some (Leave (FINISHED (Count iter)) st2)
                          else Some (Next st2))))
         else Some (Leave RESTORE_BESTSOL st1))"

text \<open>The \<^verbatim>\<open>switch (stop_type)\<close> after the update: residuals from the recurrence.\<close>

definition compute_residuals :: "spbcgs_args \<Rightarrow> spbcgs_state \<Rightarrow> spbcgs_state" where
  "compute_residuals c st =
     (case stop c of
        STOP_REL_RES \<Rightarrow>
          (let absres' = fasp_blas_array_norm2 (w_r st)
           in st\<lparr>absres := absres', relres := absres' / normr0 st\<rparr>)
      | STOP_REL_PRECRES \<Rightarrow>
          (let z' = precond c (w_r st);
               absres' = sqrt \<bar>fasp_blas_array_dotprod (w_r st) z'\<bar>
           in st\<lparr>w_z := z', absres := absres', relres := absres' / normr0 st\<rparr>)
      | STOP_MOD_REL_RES \<Rightarrow>
          (let absres' = fasp_blas_array_norm2 (w_r st)
           in st\<lparr>absres := absres', relres := absres' / normu st\<rparr>)
      | STOP_UNKNOWN \<Rightarrow> st)"

text \<open>The safe net: \<^verbatim>\<open>fasp_dvec_isnan(u)\<close> is false for real numbers, so only the saving of
  the best solution so far remains.\<close>

definition save_best :: "spbcgs_args \<Rightarrow> int \<Rightarrow> spbcgs_state \<Rightarrow> spbcgs_state" where
  "save_best c iter st =
     (if absres st < absres_best st - maxdiff c
      then st\<lparr>absres_best := absres st, iter_best := iter, u_best := uval st\<rparr>
      else st)"

text \<open>Check I: the solution is close to zero.\<close>

definition check_I :: "spbcgs_args \<Rightarrow> spbcgs_state \<Rightarrow> spbcgs_state flow option" where
  "check_I c st =
     (let infnormu' = fasp_blas_array_norminf (uval st);
          st1 = st\<lparr>infnormu := infnormu'\<rparr>
      in if infnormu' \<le> SMALLREAL then Some (Leave (FINISHED (Code ERROR_SOLVER_SOLSTAG)) st1)
         else Some (Next st1))"

text \<open>The re-initialisation shared by Check II and Check III, up to the second
  \<^verbatim>\<open>switch (stop_type)\<close>: \<open>r = b - A u\<close>, \<open>p = r\<close>, \<open>pp = precond(p)\<close>, \<open>rho = r\<close>,
  \<open>temp1 = (r, rho)\<close>.\<close>

definition reinit :: "spbcgs_args \<Rightarrow> spbcgs_state \<Rightarrow> spbcgs_state" where
  "reinit c st =
     (let r' = true_residual c (uval st)
      in st\<lparr>w_r := r', w_p := r', w_pp := precond c r', w_rho := r',
            temp1 := fasp_blas_array_dotprod r' r'\<rparr>)"

text \<open>The \<^verbatim>\<open>switch (stop_type)\<close> of Check II.\<close>

definition residuals_II :: "spbcgs_args \<Rightarrow> spbcgs_state \<Rightarrow> spbcgs_state" where
  "residuals_II c st =
     (case stop c of
        STOP_REL_RES \<Rightarrow>
          (let absres' = fasp_blas_array_norm2 (w_r st)
           in st\<lparr>absres := absres', relres := absres' / normr0 st\<rparr>)
      | STOP_REL_PRECRES \<Rightarrow>
          (let z' = precond c (w_r st);
               absres' = sqrt \<bar>fasp_blas_array_dotprod (w_r st) z'\<bar>
           in st\<lparr>w_z := z', absres := absres', relres := absres' / normr0 st\<rparr>)
      | STOP_MOD_REL_RES \<Rightarrow>
          (let absres' = fasp_blas_array_norm2 (w_r st)
           in st\<lparr>absres := absres', relres := absres' / normu st\<rparr>)
      | STOP_UNKNOWN \<Rightarrow> st)"

text \<open>The \<^verbatim>\<open>switch (stop_type)\<close> of Check III; its second case assigns
  \<^verbatim>\<open>relres = tempr/normr0\<close>.\<close>

definition residuals_III :: "spbcgs_args \<Rightarrow> spbcgs_state \<Rightarrow> spbcgs_state" where
  "residuals_III c st =
     (case stop c of
        STOP_REL_RES \<Rightarrow>
          (let absres' = fasp_blas_array_norm2 (w_r st)
           in st\<lparr>absres := absres', relres := absres' / normr0 st\<rparr>)
      | STOP_REL_PRECRES \<Rightarrow>
          (let z' = precond c (w_r st);
               absres' = sqrt \<bar>fasp_blas_array_dotprod (w_r st) z'\<bar>
           in st\<lparr>w_z := z', absres := absres', relres := tempr st / normr0 st\<rparr>)
      | STOP_MOD_REL_RES \<Rightarrow>
          (let absres' = fasp_blas_array_norm2 (w_r st)
           in st\<lparr>absres := absres', relres := absres' / normu st\<rparr>)
      | STOP_UNKNOWN \<Rightarrow> st)"

text \<open>Check II: stagnation.\<close>

definition check_II :: "spbcgs_args \<Rightarrow> spbcgs_state \<Rightarrow> spbcgs_state flow option" where
  "check_II c st =
     (if stag st \<le> MAX_STAG \<and> reldiff st < maxdiff c then
        (let st1 = residuals_II c (reinit c st)
         in if relres st1 < tol c then Some (Leave BREAK st1)
            else if stag st1 \<ge> MAX_STAG
                 then Some (Leave (FINISHED (Code ERROR_SOLVER_STAG)) st1)
                 else Some (Next (st1\<lparr>stag := stag st1 + 1, restart_step := restart_step st1 + 1\<rparr>)))
      else Some (Next st))"

text \<open>Check III: prevent false convergence.\<close>

definition check_III :: "spbcgs_args \<Rightarrow> spbcgs_state \<Rightarrow> spbcgs_state flow option" where
  "check_III c st =
     (if relres st < tol c then
        (let st1 = residuals_III c (reinit c st)
         in if relres st1 < tol c then Some (Leave BREAK st1)
            else if more_step st1 \<ge> MAX_RESTART
                 then Some (Leave (FINISHED (Code ERROR_SOLVER_TOLSMALL)) st1)
                 else Some (Next (st1\<lparr>more_step := more_step st1 + 1,
                                       restart_step := restart_step st1 + 1\<rparr>)))
      else Some (Next st))"

text \<open>One round of the main loop, in two parts: from the top of the loop body to the end of
  Check II, and from Check III to the end of the body; \<open>iter\<close> is the value after
  \<^verbatim>\<open>iter++\<close>.\<close>

definition before_check_III ::
  "spbcgs_args \<Rightarrow> int \<Rightarrow> spbcgs_state \<Rightarrow> spbcgs_state flow option" where
  "before_check_III c iter st =
     flow_bind (step_alpha c iter st) (\<lambda>st1.
     flow_bind (step_update c iter (step_omega c st1)) (\<lambda>st2.
     flow_bind (check_I c (save_best c iter (compute_residuals c st2))) (\<lambda>st3.
     check_II c st3)))"

definition spbcgs_body :: "spbcgs_args \<Rightarrow> int \<Rightarrow> spbcgs_state \<Rightarrow> spbcgs_state flow option" where
  "spbcgs_body c iter st =
     flow_bind (before_check_III c iter st) (\<lambda>st4.
     flow_bind (check_III c st4) (\<lambda>st5.
     Some (Next (st5\<lparr>absres0 := absres st5\<rparr>))))"

text \<open>\<^verbatim>\<open>while ( iter++ < MaxIt )\<close>; the second argument is \<open>iter\<close> before the test.\<close>

function spbcgs_loop ::
  "spbcgs_args \<Rightarrow> int \<Rightarrow> spbcgs_state \<Rightarrow> (leave \<times> int \<times> spbcgs_state) option" where
  "spbcgs_loop c iter st =
     (if iter < MaxIt c then
        (case spbcgs_body c (iter + 1) st of
           None \<Rightarrow> None
         | Some (Leave l st') \<Rightarrow> Some (l, iter + 1, st')
         | Some (Next st') \<Rightarrow> spbcgs_loop c (iter + 1) st')
      else Some (LOOP_END, iter + 1, st))"
  by pat_completeness auto
termination
  by (relation "measure (\<lambda>(c, iter, st). nat (MaxIt c - iter))") auto

declare spbcgs_loop.simps [simp del]

text \<open>The residual norm that the stopping criterion measures at a vector \<open>x\<close>.\<close>

definition stop_norm :: "spbcgs_args \<Rightarrow> real list \<Rightarrow> real" where
  "stop_norm c x =
     (let r' = true_residual c x
      in case stop c of
           STOP_REL_PRECRES \<Rightarrow> sqrt \<bar>fasp_blas_array_dotprod (precond c r') r'\<bar>
         | _ \<Rightarrow> fasp_blas_array_norm2 r')"

text \<open>The block at the label \<^verbatim>\<open>RESTORE_BESTSOL\<close>; \<open>iter\<close> is an iteration count here.\<close>

definition restore_bestsol :: "spbcgs_args \<Rightarrow> int \<Rightarrow> spbcgs_state \<Rightarrow> spbcgs_state" where
  "restore_bestsol c iter st =
     (if iter \<noteq> iter_best st then
        (let r' = true_residual c (u_best st);
             st1 = (case stop c of
                      STOP_REL_RES \<Rightarrow> st\<lparr>w_r := r', absres_best := fasp_blas_array_norm2 r'\<rparr>
                    | STOP_REL_PRECRES \<Rightarrow>
                        (let z' = precond c r'
                         in st\<lparr>w_r := r', w_z := z',
                               absres_best := sqrt \<bar>fasp_blas_array_dotprod z' r'\<bar>\<rparr>)
                    | STOP_MOD_REL_RES \<Rightarrow> st\<lparr>w_r := r', absres_best := fasp_blas_array_norm2 r'\<rparr>
                    | STOP_UNKNOWN \<Rightarrow> st\<lparr>w_r := r'\<rparr>)
         in if absres st1 > absres_best st1 + maxdiff c then st1\<lparr>uval := u_best st1\<rparr> else st1)
      else st)"

text \<open>The value returned at \<^verbatim>\<open>FINISHED\<close>: \<^verbatim>\<open>if ( iter > MaxIt ) return ERROR_SOLVER_MAXIT;
  else return iter;\<close>. The error codes are negative and compare below \<open>MaxIt\<close>.\<close>

definition finished :: "spbcgs_args \<Rightarrow> iter_value \<Rightarrow> iter_value" where
  "finished c iter =
     (case iter of
        Count k \<Rightarrow> if k > MaxIt c then Code ERROR_SOLVER_MAXIT else Count k
      | Code e \<Rightarrow> Code e)"

text \<open>The state before the main loop: the work space is zero, the scalars as initialised
  (those left uninitialised by the source are written before they are read; they start as
  \<open>0\<close> here).\<close>

definition spbcgs_init :: "spbcgs_args \<Rightarrow> real list \<Rightarrow> spbcgs_state" where
  "spbcgs_init c u =
     (let zero = replicate (length (bval c)) 0
      in \<lparr>uval = u, w_p = zero, w_z = zero, w_r = zero, w_t = zero, w_rho = zero, w_pp = zero,
          w_s = zero, w_sp = zero, u_best = zero,
          stag = 1, more_step = 1, restart_step = 1,
          alpha = 0, beta = 0, omega = 0, temp1 = 0, temp2 = 0, tempr = 0,
          absres0 = BIGREAL, absres = BIGREAL, relres = BIGREAL, normu = BIGREAL,
          normr0 = BIGREAL, reldiff = 0, normd = 0, infnormu = 0,
          iter_best = 0, absres_best = BIGREAL\<rparr>)"

text \<open>The solver up to the point where control leaves the main loop or jumps to \<^verbatim>\<open>FINISHED\<close>
  before it: how it left, the value of \<open>iter\<close> and the state at that moment (whose \<open>uval\<close> is
  the last iterate).\<close>

definition spbcgs_main ::
  "spbcgs_args \<Rightarrow> real list \<Rightarrow> (leave \<times> iter_value \<times> spbcgs_state) option" where
  "spbcgs_main c u =
     (let st0 = spbcgs_init c u;
          r' = true_residual c u;
          absres0' = fasp_blas_array_norm2 r';
          st1 = st0\<lparr>w_r := r', absres0 := absres0'\<rparr>;
          start = (case stop c of
                     STOP_REL_RES \<Rightarrow>
                       (let normr0' = max SMALLREAL absres0'
                        in Some (st1\<lparr>normr0 := normr0', relres := absres0' / normr0'\<rparr>))
                   | STOP_REL_PRECRES \<Rightarrow>
                       (let normr0' = max SMALLREAL absres0'
                        in Some (st1\<lparr>normr0 := normr0', relres := absres0' / normr0'\<rparr>))
                   | STOP_MOD_REL_RES \<Rightarrow>
                       (let normu' = max SMALLREAL (fasp_blas_array_norm2 u)
                        in Some (st1\<lparr>normu := normu', relres := absres0' / normu'\<rparr>))
                   | STOP_UNKNOWN \<Rightarrow> None)
      in case start of
           None \<Rightarrow> Some (FINISHED (Count 0), Count 0, st1)
         | Some st2 \<Rightarrow>
             if relres st2 < tol c then Some (FINISHED (Count 0), Count 0, st2)
             else
               (let st3 = st2\<lparr>w_rho := r', temp1 := fasp_blas_array_dotprod r' r', w_p := r'\<rparr>
                in case spbcgs_loop c 0 st3 of
                     None \<Rightarrow> None
                   | Some (FINISHED iter, k, st4) \<Rightarrow> Some (FINISHED iter, iter, st4)
                   | Some (l, k, st4) \<Rightarrow> Some (l, Count k, st4)))"

text \<open>The rest of the routine: the block at \<^verbatim>\<open>RESTORE_BESTSOL\<close>, unless control jumped to
  \<^verbatim>\<open>FINISHED\<close>, and the value returned. The result is how control left the loop, the value
  returned, and the final state (whose \<open>uval\<close> is the solution handed back).\<close>

definition spbcgs_finish ::
  "spbcgs_args \<Rightarrow> leave \<times> iter_value \<times> spbcgs_state \<Rightarrow> leave \<times> iter_value \<times> spbcgs_state" where
  "spbcgs_finish c x =
     (case x of
        (FINISHED i, iter, st) \<Rightarrow> (FINISHED i, finished c iter, st)
      | (l, Count k, st) \<Rightarrow> (l, finished c (Count k), restore_bestsol c k st)
      | (l, Code e, st) \<Rightarrow> (l, finished c (Code e), st))"

definition spbcgs ::
  "spbcgs_args \<Rightarrow> real list \<Rightarrow> (leave \<times> iter_value \<times> spbcgs_state) option" where
  "spbcgs c u = map_option (spbcgs_finish c) (spbcgs_main c u)"

definition fasp_solver_dcsr_spbcgs ::
  "dCSRmat \<Rightarrow> real list \<Rightarrow> real list \<Rightarrow> (real list \<Rightarrow> real list) option \<Rightarrow> real \<Rightarrow> int
     \<Rightarrow> stop_type \<Rightarrow> (iter_value \<times> real list) option" where
  "fasp_solver_dcsr_spbcgs A b u pc_arg tol_arg MaxIt_arg stop_arg =
     map_option (\<lambda>(l, ret, st). (ret, uval st))
       (spbcgs \<lparr>mxv = fasp_blas_dcsr_mxv A, bval = b, pc = pc_arg, tol = tol_arg,
                MaxIt = MaxIt_arg, stop = stop_arg\<rparr> u)"

text \<open>What a caller and the safe net see of a run: how control left the loop, the value
  returned, the solution \<open>u\<close>, and the best iterate with its iteration number and residual.\<close>

definition spbcgs_report ::
  "spbcgs_args \<Rightarrow> real list
     \<Rightarrow> (leave \<times> iter_value \<times> real list \<times> real list \<times> int \<times> real) option" where
  "spbcgs_report c u =
     map_option (\<lambda>(l, ret, st). (l, ret, uval st, u_best st, iter_best st, absres_best st))
       (spbcgs c u)"







subsection \<open>Two small systems\<close>

text \<open>The matrix \<open>diag(1, 2)\<close>; the first system has the right-hand side \<open>(1, 1)\<close>, the
  preconditioner \<open>x \<mapsto> x / 45\<close>, the tolerance \<open>0.1\<close> and the criterion
  \<^verbatim>\<open>STOP_REL_PRECRES\<close>; the second has the right-hand side \<open>(15 \<cdot> 10\<^sup>3\<^sup>6, 15 \<cdot> 10\<^sup>3\<^sup>6)\<close>, no
  preconditioner, the tolerance \<open>0.2\<close> and the criterion \<^verbatim>\<open>STOP_REL_RES\<close>. Both start from
  \<open>u = (0, 0)\<close>.\<close>

definition ex_A :: dCSRmat where
  "ex_A = \<lparr>dCSRmat.row = 2, col = 2, nnz = 2, IA = [0, 1, 2], JA = [0, 1], val = [1, 2]\<rparr>"

definition ex_pc :: "real list \<Rightarrow> real list" where
  "ex_pc x = map (\<lambda>xi. xi / 45) x"

definition ex_args :: spbcgs_args where
  "ex_args = \<lparr>mxv = fasp_blas_dcsr_mxv ex_A, bval = [1, 1], pc = Some ex_pc, tol = 1 / 10,
              MaxIt = 10, stop = STOP_REL_PRECRES\<rparr>"


text \<open>The first system at the top of the loop body in round \<open>1\<close>, and where it enters
  Check III in that round.\<close>

definition ex_start :: spbcgs_state where
  "ex_start =
     \<lparr>uval = [0, 0], w_p = [1, 1], w_z = [0, 0], w_r = [1, 1], w_t = [0, 0], w_rho = [1, 1],
      w_pp = [0, 0], w_s = [0, 0], w_sp = [0, 0], u_best = [0, 0],
      stag = 1, more_step = 1, restart_step = 1,
      alpha = 0, beta = 0, omega = 0, temp1 = 2, temp2 = 0, tempr = 0,
      absres0 = sqrt 2, absres = BIGREAL, relres = 1, normu = BIGREAL,
      normr0 = sqrt 2, reldiff = 0, normd = 0, infnormu = 0,
      iter_best = 0, absres_best = BIGREAL\<rparr>"

definition ex_at_check_III :: spbcgs_state where
  "ex_at_check_III =
     \<lparr>uval = [13 / 15, 7 / 15], w_p = [8 / 45, 2 / 45], w_z = [2 / 675, 1 / 675],
      w_r = [2 / 15, 1 / 15], w_t = [1 / 135, - 2 / 135], w_rho = [1, 1],
      w_pp = [1 / 45, 1 / 45], w_s = [2 / 15, 1 / 15], w_sp = [13 / 15, 7 / 15],
      u_best = [13 / 15, 7 / 15],
      stag = 1, more_step = 1, restart_step = 1,
      alpha = 30, beta = 1 / 9, omega = 27, temp1 = 1 / 5, temp2 = 2, tempr = 1 / 3645,
      absres0 = sqrt 2, absres = 1 / 45, relres = 1 / 45 / sqrt 2, normu = sqrt (218 / 225),
      normr0 = sqrt 2, reldiff = 1, normd = sqrt (218 / 225), infnormu = 13 / 15,
      iter_best = 1, absres_best = 1 / 45\<rparr>"

section \<open>Evaluation of monadic loops\<close>

text \<open>With this congruence rule the simplifier evaluates the first action of a bind before
  it looks at the continuation, so that unfolding a loop equation stops at the loop test.\<close>

lemma bind_weak_cong: "m = m' \<Longrightarrow> Option.bind m f = Option.bind m' f"
  by simp



section \<open>Counted loops: invariants\<close>

lemma for_loop_inv:
  assumes "for_loop j e body s = Some s'" and "Inv j s" and "j \<le> e"
    and "\<And>k t t'. j \<le> k \<Longrightarrow> k < e \<Longrightarrow> Inv k t \<Longrightarrow> body k t = Some t' \<Longrightarrow> Inv (k + 1) t'"
  shows "Inv e s'"
  using assms
proof (induction j e body s rule: for_loop.induct)
  case (1 j e body s)
  show ?case
  proof (cases "j < e")
    case True
    with "1.prems"(1) obtain t where t: "body j s = Some t" "for_loop (j + 1) e body t = Some s'"
      by (subst (asm) for_loop.simps) (auto split: option.splits)
    have "Inv (j + 1) t" using "1.prems"(4) [of j s t] True "1.prems"(2) t by simp
    then show ?thesis
      using "1.IH" [OF True t(1) t(2)] True "1.prems"(4) by simp
  next
    case False
    with "1.prems" show ?thesis by (subst (asm) for_loop.simps) simp
  qed
qed

lemma for_loop_empty: "e \<le> j \<Longrightarrow> for_loop j e body s = Some s"
  by (subst for_loop.simps) simp

lemma rd_SomeD: "rd xs i = Some v \<Longrightarrow> 0 \<le> i \<and> i < int (length xs) \<and> v = xs ! nat i"
  by (auto simp: rd_def split: if_splits)

lemma wr_SomeD: "wr xs i v = Some ys \<Longrightarrow> 0 \<le> i \<and> i < int (length xs) \<and> ys = xs[nat i := v]"
  by (auto simp: wr_def split: if_splits)

lemma take_Suc_update: "k < length xs \<Longrightarrow> take (Suc k) (xs[k := a]) = take k xs @ [a]"
  by (simp add: take_Suc_conv_app_nth)

lemma concat_slice:
  assumes "i < n"
  shows "drop (\<Sum>m<i. length (f m)) (take (\<Sum>m<Suc i. length (f m)) (concat (map f [0 ..< n]))) = f i"
proof -
  have len: "\<And>k. length (concat (map f [0 ..< k])) = (\<Sum>m<k. length (f m))"
  proof -
    fix k show "length (concat (map f [0 ..< k])) = (\<Sum>m<k. length (f m))"
      by (induction k) (simp_all)
  qed
  from assms have "[0 ..< n] = [0 ..< i] @ i # [Suc i ..< n]"
    by (metis upt_conv_Cons upt_add_eq_append le0 less_imp_add_positive)
  then have "concat (map f [0 ..< n]) = concat (map f [0 ..< i]) @ f i @ concat (map f [Suc i ..< n])"
    by simp
  then show ?thesis using len [of i] by simp
qed

lemma csr_row_slice:
  assumes "b \<le> e" "e \<le> length xs"
  shows "map (\<lambda>j. xs ! nat j) [int b .. int e - 1] = drop b (take e xs)"
proof -
  have "[int b .. int e - 1] = map int [b ..< e]"
    using assms(1)
  proof (induction e)
    case 0 then show ?case by simp
  next
    case (Suc e)
    show ?case
    proof (cases "b = Suc e")
      case True then show ?thesis by simp
    next
      case False
      with Suc have "[int b .. int e - 1] = map int [b ..< e]" "b \<le> e" by auto
      then show ?thesis using upto_rec2 [of "int b" "int e"] by simp
    qed
  qed
  then have "map (\<lambda>j. xs ! nat j) [int b .. int e - 1] = map (\<lambda>j. xs ! j) [b ..< e]"
    by (simp add: comp_def)
  also have "\<dots> = drop b (take e xs)"
    using assms by (intro nth_equalityI) (auto simp: min_def)
  finally show ?thesis .
qed






lemma for_loop_total:
  assumes "Inv j s"
    and "\<And>k t. j \<le> k \<Longrightarrow> k < e \<Longrightarrow> Inv k t \<Longrightarrow> \<exists>t'. body k t = Some t' \<and> Inv (k + 1) t'"
  shows "\<exists>s'. for_loop j e body s = Some s'"
  using assms
proof (induction j e body s rule: for_loop.induct)
  case (1 j e body s)
  show ?case
  proof (cases "j < e")
    case True
    from "1.prems"(2) [of j s] True "1.prems"(1) obtain t where t: "body j s = Some t" "Inv (j + 1) t"
      by auto
    have "\<exists>s'. for_loop (j + 1) e body t = Some s'"
      using "1.IH" [OF True t(1) t(2)] "1.prems"(2) by simp
    with True t(1) show ?thesis by (subst for_loop.simps) simp
  next
    case False
    then show ?thesis by (subst for_loop.simps) simp
  qed
qed

lemma option_eq_by_iff:
  assumes "\<And>r. f = Some r \<longleftrightarrow> P r" "\<And>r. g = Some r \<longleftrightarrow> P r"
  shows "f = (g :: 'a option)"
proof (cases f)
  case None
  with assms show ?thesis by (cases g) auto
next
  case (Some r)
  with assms(1) [of r] have "P r" by blast
  with assms(2) [of r] have "g = Some r" by blast
  with Some show ?thesis by simp
qed

lemma for_loop_cells:
  assumes run: "for_loop 0 n body t = Some t'"
    and step: "\<And>k s s'. 0 \<le> k \<Longrightarrow> k < n \<Longrightarrow> body k s = Some s' \<Longrightarrow>
       0 \<le> off + k \<and> off + k < int (length s)
       \<and> s' = s[nat (off + k) := f k (s ! nat (off + k))] \<and> Q k"
  shows "length t' = length t
       \<and> (\<forall>m < length t. t' ! m =
            (if off \<le> int m \<and> int m < off + n then f (int m - off) (t ! m) else t ! m))
       \<and> (1 \<le> n \<longrightarrow> 0 \<le> off \<and> off + n \<le> int (length t))
       \<and> (\<forall>k. 0 \<le> k \<and> k < n \<longrightarrow> Q k)"
proof (cases "0 \<le> n")
  case True
  let ?Inv = "\<lambda>k s. length s = length t
       \<and> (\<forall>m < length t. s ! m =
            (if off \<le> int m \<and> int m < off + k then f (int m - off) (t ! m) else t ! m))
       \<and> (1 \<le> k \<longrightarrow> 0 \<le> off \<and> off + k \<le> int (length t))
       \<and> (\<forall>k'. 0 \<le> k' \<and> k' < k \<longrightarrow> Q k')"
  have "?Inv n t'"
  proof (rule for_loop_inv [OF run _ True, where Inv = ?Inv])
    show "?Inv 0 t" by auto
  next
    fix k s s'
    assume k: "0 \<le> k" "k < n" and inv: "?Inv k s" and body: "body k s = Some s'"
    from inv have i: "length s = length t"
      "\<And>m. m < length t \<Longrightarrow> s ! m =
            (if off \<le> int m \<and> int m < off + k then f (int m - off) (t ! m) else t ! m)"
      "1 \<le> k \<Longrightarrow> 0 \<le> off \<and> off + k \<le> int (length t)"
      "\<And>k'. 0 \<le> k' \<Longrightarrow> k' < k \<Longrightarrow> Q k'"
      by blast+
    from step [OF k body] have st: "0 \<le> off + k" "off + k < int (length s)"
      "s' = s[nat (off + k) := f k (s ! nat (off + k))]" "Q k" by blast+
    have off0: "0 \<le> off" using st(1) i(3) k by (cases "k = 0") auto
    have cell: "s ! nat (off + k) = t ! nat (off + k)"
      using i(2) [of "nat (off + k)"] st(1,2) i(1) by simp
    have "length s' = length t" using st(3) i(1) by simp
    moreover have "\<forall>m < length t. s' ! m =
            (if off \<le> int m \<and> int m < off + (k + 1) then f (int m - off) (t ! m) else t ! m)"
    proof (intro allI impI)
      fix m assume m: "m < length t"
      show "s' ! m = (if off \<le> int m \<and> int m < off + (k + 1) then f (int m - off) (t ! m) else t ! m)"
      proof (cases "int m = off + k")
        case True
        then have "nat (off + k) = m" "int m - off = k" by simp_all
        with st(3) cell m i(1) True k show ?thesis by simp
      next
        case False
        then have "nat (off + k) \<noteq> m" using st(1) by auto
        with st(3) i(2) [OF m] False show ?thesis by auto
      qed
    qed
    moreover have "1 \<le> k + 1 \<longrightarrow> 0 \<le> off \<and> off + (k + 1) \<le> int (length t)"
      using off0 st(2) i(1) by simp
    moreover have "\<forall>k'. 0 \<le> k' \<and> k' < k + 1 \<longrightarrow> Q k'"
    proof (intro allI impI)
      fix k' assume "0 \<le> k' \<and> k' < k + 1"
      then show "Q k'" using i(4) [of k'] st(4) by (cases "k' = k") auto
    qed
    ultimately show "?Inv (k + 1) s'" by blast
  qed
  then show ?thesis .
next
  case False
  with run have "t' = t" by (simp add: for_loop_empty)
  with False show ?thesis by auto
qed


section \<open>generate\_sparsity\_P\<close>

lemma sparsity_count_loop:
  assumes "for_loop b e (sparsity_count_body S vec i) PIA = Some PIA'"
  shows "PIA' = PIA[nat (i + 1) := PIA ! nat (i + 1) +
           int (length (filter (\<lambda>k. vec ! nat k = CGPT) (map (\<lambda>j. iCSRmat.JA S ! nat j) [b .. e - 1])))]"
proof (cases "b \<le> e")
  case True
  let ?L = "\<lambda>j. filter (\<lambda>k. vec ! nat k = CGPT) (map (\<lambda>j. iCSRmat.JA S ! nat j) [b .. j - 1])"
  let ?Inv = "\<lambda>j t. t = PIA[nat (i + 1) := PIA ! nat (i + 1) + int (length (?L j))]"
  have "?Inv e PIA'"
  proof (rule for_loop_inv [OF assms _ True, where Inv = ?Inv])
    show "?Inv b PIA" by simp
  next
    fix k t t'
    assume k: "b \<le> k" "k < e" and inv: "?Inv k t" and body: "sparsity_count_body S vec i k t = Some t'"
    from body obtain c vk where c: "rd (iCSRmat.JA S) k = Some c" "rd vec c = Some vk"
      and r: "(if vk = CGPT then do { x \<leftarrow> rd t (i + 1); wr t (i + 1) (x + 1) } else Some t) = Some t'"
      by (auto simp: sparsity_count_body_def split: Option.bind_splits)
    from c have ck: "c = iCSRmat.JA S ! nat k" "vk = vec ! nat c" by (auto dest: rd_SomeD)
    have up: "[b .. k] = [b .. k - 1] @ [k]" using k by (simp add: upto_rec2)
    show "?Inv (k + 1) t'"
    proof (cases "vk = CGPT")
      case True
      with r obtain x where x: "rd t (i + 1) = Some x" "wr t (i + 1) (x + 1) = Some t'"
        by (auto split: Option.bind_splits)
      from x(1) have b: "0 \<le> i + 1" "i + 1 < int (length t)" "x = t ! nat (i + 1)"
        by (auto dest: rd_SomeD)
      from inv b have "x = PIA ! nat (i + 1) + int (length (?L k))" by simp
      moreover from x(2) have "t' = t[nat (i + 1) := x + 1]" by (auto dest: wr_SomeD)
      ultimately show ?thesis using inv True ck k by (simp add: up ac_simps)
    next
      case False
      with r inv ck k show ?thesis by (simp add: up)
    qed
  qed
  then show ?thesis .
next
  case False
  with assms show ?thesis by (simp add: for_loop_empty)
qed

lemma sparsity_step1_body_eq:
  assumes "sparsity_step1_body S vec i PIA = Some PIA'" "PIA ! nat (i + 1) = 0"
    "0 \<le> i" "i + 1 < int (length PIA)"
  shows "PIA' = PIA[nat (i + 1) := int (length (P_row S vec i))]"
proof -
  from assms(1) obtain vi where vi: "rd vec i = Some vi"
    by (auto simp: sparsity_step1_body_def split: Option.bind_splits)
  then have v: "vi = vec ! nat i" by (auto dest: rd_SomeD)
  show ?thesis
  proof (cases "vi = FGPT")
    case True
    with assms(1) vi obtain b e where be: "rd (iCSRmat.IA S) i = Some b" "rd (iCSRmat.IA S) (i + 1) = Some e"
      "for_loop b e (sparsity_count_body S vec i) PIA = Some PIA'"
      by (auto simp: sparsity_step1_body_def split: Option.bind_splits)
    from be(1,2) have "b = iCSRmat.IA S ! nat i" "e = iCSRmat.IA S ! nat (i + 1)" by (auto dest: rd_SomeD)
    with sparsity_count_loop [OF be(3)] True v assms(2) show ?thesis
      by (simp add: P_row_def csr_row_def filter_map comp_def)
  next
    case False
    with assms(1) vi v show ?thesis
      by (auto simp: sparsity_step1_body_def P_row_def FGPT_def ISPT_def dest: wr_SomeD split: if_splits)
  qed
qed

lemma sparsity_step1_loop:
  assumes "for_loop 0 row_P (sparsity_step1_body S vec) (replicate (nat (row_P + 1)) 0) = Some PIA1"
    and "0 \<le> row_P"
  shows "length PIA1 = nat (row_P + 1) \<and> PIA1 ! 0 = 0 \<and>
         (\<forall>k. k < nat row_P \<longrightarrow> PIA1 ! Suc k = int (length (P_row S vec (int k))))"
proof -
  let ?Inv = "\<lambda>i t. length t = nat (row_P + 1) \<and> t ! 0 = 0 \<and>
      (\<forall>k. k < nat i \<longrightarrow> t ! Suc k = int (length (P_row S vec (int k)))) \<and>
      (\<forall>k. nat i \<le> k \<and> k < nat row_P \<longrightarrow> t ! Suc k = 0)"
  have "?Inv row_P PIA1"
  proof (rule for_loop_inv [OF assms(1) _ assms(2), where Inv = ?Inv])
    show "?Inv 0 (replicate (nat (row_P + 1)) 0)" using assms(2) by (auto simp: nat_add_distrib)
  next
    fix k t t'
    assume k: "0 \<le> k" "k < row_P" and inv: "?Inv k t" and body: "sparsity_step1_body S vec k t = Some t'"
    have s: "nat (k + 1) = Suc (nat k)" using k by simp
    from inv k have z: "t ! nat (k + 1) = 0" by (simp add: s)
    from inv k have lt: "k + 1 < int (length t)" by simp
    have t': "t' = t[Suc (nat k) := int (length (P_row S vec k))]"
      using sparsity_step1_body_eq [OF body z k(1) lt] by (simp add: s)
    have len: "Suc (nat k) < length t" using lt k by simp
    show "?Inv (k + 1) t'"
      using inv k len unfolding t' s
      by (auto simp: nth_list_update less_Suc_eq)
  qed
  then show ?thesis by simp
qed

lemma P_psum_Suc: "P_psum S vec (Suc k) = P_psum S vec k + length (P_row S vec (int k))"
  by (simp add: P_psum_def)

lemma sparsity_sum_loop:
  assumes "for_loop 0 row_P sparsity_sum_body PIA1 = Some PIA2" "0 \<le> row_P"
    and "length PIA1 = nat (row_P + 1)" "PIA1 ! 0 = 0"
    and "\<forall>k. k < nat row_P \<longrightarrow> PIA1 ! Suc k = int (length (P_row S vec (int k)))"
  shows "length PIA2 = nat (row_P + 1) \<and> (\<forall>k. k \<le> nat row_P \<longrightarrow> PIA2 ! k = int (P_psum S vec k))"
proof -
  let ?Inv = "\<lambda>i t. length t = nat (row_P + 1) \<and>
      (\<forall>k. k \<le> nat i \<longrightarrow> t ! k = int (P_psum S vec k)) \<and>
      (\<forall>k. nat i \<le> k \<and> k < nat row_P \<longrightarrow> t ! Suc k = int (length (P_row S vec (int k))))"
  have "?Inv row_P PIA2"
  proof (rule for_loop_inv [OF assms(1) _ assms(2), where Inv = ?Inv])
    show "?Inv 0 PIA1" using assms by (simp add: P_psum_def)
  next
    fix k t t'
    assume k: "0 \<le> k" "k < row_P" and inv: "?Inv k t" and body: "sparsity_sum_body k t = Some t'"
    have s: "nat (k + 1) = Suc (nat k)" using k by simp
    from body obtain a b where ab: "rd t (k + 1) = Some a" "rd t k = Some b" "wr t (k + 1) (a + b) = Some t'"
      by (auto simp: sparsity_sum_body_def split: Option.bind_splits)
    from ab(1) inv k have a: "a = int (length (P_row S vec k))" by (auto dest!: rd_SomeD simp: s)
    from ab(2) inv k have b: "b = int (P_psum S vec (nat k))" by (auto dest!: rd_SomeD)
    from ab(3) have t': "t' = t[Suc (nat k) := a + b]" by (auto dest!: wr_SomeD simp: s)
    have len: "Suc (nat k) < length t" using inv k by simp
    show "?Inv (k + 1) t'"
      using inv k len a b unfolding t' s
      by (auto simp: nth_list_update less_Suc_eq le_Suc_eq P_psum_Suc)
  qed
  then show ?thesis by simp
qed


lemma sparsity_fill_loop:
  assumes "for_loop b e (sparsity_fill_body S vec) (PJA, idx) = Some (PJA', idx')" "0 \<le> idx"
  shows "idx' = idx + int (length (filter (\<lambda>k. vec ! nat k = CGPT) (map (\<lambda>j. iCSRmat.JA S ! nat j) [b .. e - 1])))
       \<and> take (nat idx') PJA' = take (nat idx) PJA @ filter (\<lambda>k. vec ! nat k = CGPT) (map (\<lambda>j. iCSRmat.JA S ! nat j) [b .. e - 1])
       \<and> length PJA' = length PJA"
proof (cases "b \<le> e")
  case True
  let ?L = "\<lambda>j. filter (\<lambda>k. vec ! nat k = CGPT) (map (\<lambda>j. iCSRmat.JA S ! nat j) [b .. j - 1])"
  let ?Inv = "\<lambda>j st. snd st = idx + int (length (?L j))
       \<and> take (nat (snd st)) (fst st) = take (nat idx) PJA @ ?L j \<and> length (fst st) = length PJA"
  have "?Inv e (PJA', idx')"
  proof (rule for_loop_inv [OF assms(1) _ True, where Inv = ?Inv])
    show "?Inv b (PJA, idx)" by simp
  next
    fix k st st'
    assume k: "b \<le> k" "k < e" and inv: "?Inv k st" and body: "sparsity_fill_body S vec k st = Some st'"
    obtain t ix where st: "st = (t, ix)" by (cases st)
    from body st obtain c vk where c: "rd (iCSRmat.JA S) k = Some c" "rd vec c = Some vk"
      and r: "(if vk = CGPT then do { t' \<leftarrow> wr t ix c; Some (t', ix + 1) } else Some (t, ix)) = Some st'"
      by (auto simp: sparsity_fill_body_def split: Option.bind_splits)
    from c have ck: "c = iCSRmat.JA S ! nat k" "vk = vec ! nat c" by (auto dest: rd_SomeD)
    have up: "[b .. k] = [b .. k - 1] @ [k]" using k by (simp add: upto_rec2)
    from inv [unfolded st] have i: "ix = idx + int (length (?L k))"
      "take (nat ix) t = take (nat idx) PJA @ ?L k" "length t = length PJA"
      unfolding fst_conv snd_conv by blast+
    have ix0: "0 \<le> ix" using i(1) assms(2) by simp
    have L: "?L (k + 1) = ?L k @ (if vk = CGPT then [c] else [])"
      using ck by (simp add: up)
    show "?Inv (k + 1) st'"
    proof (cases "vk = CGPT")
      case True
      with r obtain t' where t': "wr t ix c = Some t'" "st' = (t', ix + 1)"
        by (auto split: Option.bind_splits)
      from t'(1) have w: "ix < int (length t)" "t' = t[nat ix := c]" by (auto dest: wr_SomeD)
      have n: "nat (ix + 1) = Suc (nat ix)" using ix0 by simp
      have tk: "take (Suc (nat ix)) (t[nat ix := c]) = take (nat ix) t @ [c]"
        using w ix0 by (intro take_Suc_update) simp
      have "snd st' = idx + int (length (?L (k + 1)))"
        unfolding L using True t'(2) i(1) by simp
      moreover have "take (nat (snd st')) (fst st') = take (nat idx) PJA @ ?L (k + 1)"
        unfolding L using True t'(2) w(2) tk i(2) by (simp add: n)
      moreover have "length (fst st') = length PJA" using t'(2) w(2) i(3) by simp
      ultimately show ?thesis by blast
    next
      case False
      with r have "st' = (t, ix)" by simp
      with i L False show ?thesis by simp
    qed
  qed
  then show ?thesis unfolding fst_conv snd_conv .
next
  case False
  with assms show ?thesis by (simp add: for_loop_empty)
qed

lemma sparsity_step2_body_eq:
  assumes "sparsity_step2_body S vec i (PJA, idx) = Some (PJA', idx')" "0 \<le> idx"
  shows "idx' = idx + int (length (P_row S vec i))
       \<and> take (nat idx') PJA' = take (nat idx) PJA @ P_row S vec i
       \<and> length PJA' = length PJA"
proof -
  from assms(1) obtain vi where vi: "rd vec i = Some vi"
    by (auto simp: sparsity_step2_body_def split: Option.bind_splits)
  then have v: "vi = vec ! nat i" by (auto dest: rd_SomeD)
  show ?thesis
  proof (cases "vi = FGPT")
    case True
    with assms(1) vi obtain b e where be: "rd (iCSRmat.IA S) i = Some b" "rd (iCSRmat.IA S) (i + 1) = Some e"
      "for_loop b e (sparsity_fill_body S vec) (PJA, idx) = Some (PJA', idx')"
      by (auto simp: sparsity_step2_body_def split: Option.bind_splits)
    from be(1,2) have "b = iCSRmat.IA S ! nat i" "e = iCSRmat.IA S ! nat (i + 1)" by (auto dest: rd_SomeD)
    with True v have pr: "P_row S vec i =
        filter (\<lambda>k. vec ! nat k = CGPT) (map (\<lambda>j. iCSRmat.JA S ! nat j) [b .. e - 1])"
      by (simp add: P_row_def csr_row_def)
    show ?thesis using sparsity_fill_loop [OF be(3) assms(2)] unfolding pr .
  next
    case False
    note nf = this
    show ?thesis
    proof (cases "vi = ISPT")
      case True
      with assms(1) vi v nf show ?thesis
        by (auto simp: sparsity_step2_body_def P_row_def)
    next
      case False
      with assms(1) vi nf obtain t' where t': "wr PJA idx i = Some t'" "PJA' = t'" "idx' = idx + 1"
        by (auto simp: sparsity_step2_body_def split: Option.bind_splits)
      from t'(1) have w: "idx < int (length PJA)" "t' = PJA[nat idx := i]" by (auto dest: wr_SomeD)
      have n: "nat (idx + 1) = Suc (nat idx)" using assms(2) by simp
      have "take (Suc (nat idx)) (PJA[nat idx := i]) = take (nat idx) PJA @ [i]"
        using w assms(2) by (intro take_Suc_update) simp
      then show ?thesis using t' w(2) v nf False by (simp add: P_row_def n)
    qed
  qed
qed

lemma sparsity_step2_loop:
  assumes "for_loop 0 row_P (sparsity_step2_body S vec) (PJA0, 0) = Some (PJA, idx)" "0 \<le> row_P"
  shows "idx = int (P_psum S vec (nat row_P))
       \<and> take (nat idx) PJA = concat (map (\<lambda>m. P_row S vec (int m)) [0 ..< nat row_P])
       \<and> length PJA = length PJA0"
proof -
  let ?Inv = "\<lambda>i st. snd st = int (P_psum S vec (nat i))
       \<and> take (nat (snd st)) (fst st) = concat (map (\<lambda>m. P_row S vec (int m)) [0 ..< nat i])
       \<and> length (fst st) = length PJA0"
  have "?Inv row_P (PJA, idx)"
  proof (rule for_loop_inv [OF assms(1) _ assms(2), where Inv = ?Inv])
    show "?Inv 0 (PJA0, 0)" by (simp add: P_psum_def)
  next
    fix k st st'
    assume k: "0 \<le> k" "k < row_P" and inv: "?Inv k st" and body: "sparsity_step2_body S vec k st = Some st'"
    obtain t ix where st: "st = (t, ix)" by (cases st)
    obtain t' ix' where st': "st' = (t', ix')" by (cases st')
    have ix0: "0 \<le> ix" using inv st by simp
    have s: "nat (k + 1) = Suc (nat k)" using k by simp
    have ik: "int (nat k) = k" using k by simp
    from sparsity_step2_body_eq [OF body [unfolded st st'] ix0]
    have e: "ix' = ix + int (length (P_row S vec k))"
      "take (nat ix') t' = take (nat ix) t @ P_row S vec k" "length t' = length t"
      by blast+
    from inv [unfolded st] have i: "ix = int (P_psum S vec (nat k))"
      "take (nat ix) t = concat (map (\<lambda>m. P_row S vec (int m)) [0 ..< nat k])"
      "length t = length PJA0"
      unfolding fst_conv snd_conv by blast+
    have "snd st' = int (P_psum S vec (nat (k + 1)))"
      using e(1) i(1) st' k by (simp add: s P_psum_Suc)
    moreover have "take (nat (snd st')) (fst st') =
        concat (map (\<lambda>m. P_row S vec (int m)) [0 ..< nat (k + 1)])"
      using e(2) i(2) st' k by (simp add: s)
    moreover have "length (fst st') = length PJA0" using e(3) i(3) st' by simp
    ultimately show "?Inv (k + 1) st'" by blast
  qed
  then show ?thesis unfolding fst_conv snd_conv .
qed

text \<open>
  Claim C6, as stated, gives each COARSE row one unit entry in the column of its coarse-grid
  index. With vertex \<open>0\<close> FINE and vertex \<open>1\<close> COARSE (so that \<open>P\<close> has one column and vertex \<open>1\<close>
  has coarse-grid index \<open>0\<close>), row \<open>1\<close> of \<open>P\<close> holds column \<open>1\<close> with value \<open>0\<close>.
\<close>

theorem C6_coarse_row_counterexample:
  "generate_sparsity_P \<lparr>iCSRmat.row = 2, col = 2, nnz = 2, IA = [0, 1, 2], JA = [1, 0]\<rparr>
     [FGPT, CGPT] 2 1
   = Some \<lparr>dCSRmat.row = 2, col = 1, nnz = 2, IA = [0, 1, 2], JA = [1, 1], val = [0, 0]\<rparr>"
  by (simp add: generate_sparsity_P_def for_loop.simps sparsity_step1_body_def
      sparsity_count_body_def sparsity_sum_body_def sparsity_step2_body_def
      sparsity_fill_body_def rd_def wr_def FGPT_def CGPT_def ISPT_def eval_nat_numeral
      cong: bind_weak_cong)

text \<open>
  Claim C6, amended. Whenever \<open>generate_sparsity_P\<close> runs through, row \<open>i\<close> of the pattern
  \<open>P\<close> holds: for a FINE vertex \<open>i\<close>, one entry per COARSE column of row \<open>i\<close> of \<open>S\<close>, in the
  order of \<open>S\<close>; for an ISOLATED vertex, no entry; for every other vertex (the COARSE ones),
  exactly one entry, whose column is \<open>i\<close> itself, the index of the vertex on the fine grid.
  All values of \<open>P\<close> are zero: the routine builds the pattern only.
\<close>

theorem C6_P_rows:
  assumes "generate_sparsity_P S vec row_P col_P = Some P" and "0 \<le> i" and "i < row_P"
  shows "csr_row (dCSRmat.IA P) (dCSRmat.JA P) i = P_row S vec i
       \<and> dCSRmat.val P = replicate (length (dCSRmat.JA P)) 0"
proof -
  have r0: "0 \<le> row_P" using assms by simp
  from assms(1) obtain PIA1 PIA2 la fi PJA idx where
    s1: "for_loop 0 row_P (sparsity_step1_body S vec) (replicate (nat (row_P + 1)) 0) = Some PIA1"
    and s2: "for_loop 0 row_P sparsity_sum_body PIA1 = Some PIA2"
    and la: "rd PIA2 row_P = Some la" and fi: "rd PIA2 0 = Some fi"
    and s3: "for_loop 0 row_P (sparsity_step2_body S vec) (replicate (nat (la - fi)) 0, 0) = Some (PJA, idx)"
    and P: "P = \<lparr>dCSRmat.row = row_P, col = col_P, nnz = la - fi,
           IA = PIA2, JA = PJA, val = replicate (nat (la - fi)) 0\<rparr>"
    by (auto simp: generate_sparsity_P_def split: Option.bind_splits)
  from sparsity_step1_loop [OF s1 r0] sparsity_sum_loop [OF s2 r0]
  have ia: "length PIA2 = nat (row_P + 1)" "\<And>k. k \<le> nat row_P \<Longrightarrow> PIA2 ! k = int (P_psum S vec k)"
    by blast+
  from la ia(2) [of "nat row_P"] r0 have la': "la = int (P_psum S vec (nat row_P))"
    by (auto dest!: rd_SomeD)
  from fi ia(2) [of 0] have fi': "fi = 0" by (auto dest!: rd_SomeD simp: P_psum_def)
  from sparsity_step2_loop [OF s3 r0] la' fi'
  have ja: "PJA = concat (map (\<lambda>m. P_row S vec (int m)) [0 ..< nat row_P])"
    "length PJA = P_psum S vec (nat row_P)"
    by auto
  have i1: "nat (i + 1) = Suc (nat i)" using assms by simp
  have lt: "nat i < nat row_P" using assms by simp
  have b: "PIA2 ! nat i = int (P_psum S vec (nat i))" using ia(2) [of "nat i"] lt by simp
  have e: "PIA2 ! nat (i + 1) = int (P_psum S vec (Suc (nat i)))"
    using ia(2) [of "Suc (nat i)"] lt by (simp add: i1)
  have mono: "P_psum S vec (nat i) \<le> P_psum S vec (Suc (nat i))" by (simp add: P_psum_Suc)
  have le: "P_psum S vec (Suc (nat i)) \<le> length PJA"
    unfolding ja(2) P_psum_def using lt by (intro sum_mono2) auto
  have "csr_row PIA2 PJA i = drop (P_psum S vec (nat i)) (take (P_psum S vec (Suc (nat i))) PJA)"
    unfolding csr_row_def b e by (rule csr_row_slice [OF mono le])
  also have "\<dots> = P_row S vec (int (nat i))"
    unfolding ja(1) P_psum_def by (rule concat_slice [OF lt])
  finally have "csr_row PIA2 PJA i = P_row S vec i" using assms by simp
  moreover have "replicate (nat (la - fi)) (0::real) = replicate (length PJA) 0"
    using ja(2) la' fi' by simp
  ultimately show ?thesis using P by simp
qed


theorem C6_P_rows_witness:
  "csr_row [0, 1, 2] [1, 1] 0 = [1] \<and> csr_row [0, 1, 2] [1, 1] 1 = [1]
   \<and> P_row \<lparr>iCSRmat.row = 2, col = 2, nnz = 2, IA = [0, 1, 2], JA = [1, 0]\<rparr> [FGPT, CGPT] 0 = [1]
   \<and> P_row \<lparr>iCSRmat.row = 2, col = 2, nnz = 2, IA = [0, 1, 2], JA = [1, 0]\<rparr> [FGPT, CGPT] 1 = [1]"
proof -
  let ?S = "\<lparr>iCSRmat.row = 2, col = 2, nnz = 2, IA = [0, 1, 2], JA = [1, 0]\<rparr>"
  let ?P = "\<lparr>dCSRmat.row = 2, col = 1, nnz = 2, IA = [0, 1, 2], JA = [1, 1], val = [0, 0]\<rparr>"
  have run: "generate_sparsity_P ?S [FGPT, CGPT] 2 1 = Some ?P"
    by (simp add: generate_sparsity_P_def for_loop.simps sparsity_step1_body_def
        sparsity_count_body_def sparsity_sum_body_def sparsity_step2_body_def
        sparsity_fill_body_def rd_def wr_def FGPT_def CGPT_def ISPT_def eval_nat_numeral
        cong: bind_weak_cong)
  have c: "csr_row [0, 1, 2] [1, 1] 0 = [1]" "csr_row [0, 1, 2] [1, 1] 1 = [1]"
    by (simp_all add: csr_row_def upto.simps)
  from C6_P_rows [OF run, of 0] C6_P_rows [OF run, of 1] c show ?thesis by simp
qed

section \<open>The symmetric MatrixMarket reader\<close>

lemmas scan_defs = scan_size_line_def scan_entry_def scan_d_def scan_le_def scan_exponent_def
  scan_sign_def special_literal_def is_space_def is_digit_def digits_val_def

lemmas dmtxsym_defs = fasp_dmtxsym_read_def dmtxsym_loop.simps dmtxsym_store_def coo_store_def
  fasp_dcoo_create_def in_INT_def wr_def

lemma replicate_4: "replicate 4 x = [x, x, x, x]"
  by (simp add: eval_nat_numeral)

lemma scan_le_example: "scan_le ('' -1.25e-1'' @ [CHR 0x0A]) = Conv (- 1 / 8) [CHR 0x0A]"
  by (simp add: scan_defs)

text \<open>The matrix \<open>[[4, -1], [-1, 4]]\<close> in symmetric form, without the banner line of the
  format: three entries in the file, all diagonal entries among them, four entries in
  memory.\<close>

lemma dmtxsym_read_full_diagonal_example:
  "fasp_dmtxsym_read (Some (''2 2 3'' @ [CHR 0x0A] @ ''1 1 4'' @ [CHR 0x0A] @ ''2 1 -1''
       @ [CHR 0x0A] @ ''2 2 4'' @ [CHR 0x0A]))
   = Inr \<lparr>dCOOmat.row = 2, col = 2, nnz = 4,
           I = [0, 1, 0, 1], J = [0, 0, 1, 1], val = [4, - 1, - 1, 4]\<rparr>"
  by (simp add: scan_defs dmtxsym_defs replicate_4)

text \<open>
  Claim C7. The reader is claimed to build, for every symmetric MatrixMarket input with \<open>m\<close>
  rows and \<open>nnz\<close> stored entries, a matrix of \<open>2 (nnz - m) + m\<close> entries that holds every
  diagonal entry of the file once and every off-diagonal entry twice. The routine computes
  the size \<open>2 (nnz - m) + m\<close> from the size line before it has read any entry, which is right
  only for a file that stores all \<open>m\<close> diagonal entries, and it never compares the entries
  with that count:

  \<^item> the file \<^verbatim>\<open>2 2 1 / 2 1 5.0\<close> (the matrix \<open>[[0, 5], [5, 0]]\<close>) gives the size \<open>0\<close>, the loop
    does not run, and the only entry of the file is dropped;
  \<^item> the file \<^verbatim>\<open>2 2 2 / 1 1 4 / 2 1 -1\<close> gives the size \<open>2\<close>, and the mirror image of the second
    entry is stored behind the arrays;
  \<^item> a file that starts with the banner line of the format,
    \<^verbatim>\<open>%%MatrixMarket matrix coordinate real symmetric\<close>, stops the first \<^verbatim>\<open>fscanf\<close> at the
    character \<^verbatim>\<open>%\<close>; its result is not looked at, and \<open>m\<close>, \<open>n\<close> and \<open>nnz\<close> are used without
    ever having been assigned.
\<close>

theorem C7_dmtxsym_read_drops_entries:
  "fasp_dmtxsym_read (Some (''2 2 1'' @ [CHR 0x0A] @ ''2 1 5.0'' @ [CHR 0x0A]))
     = Inr \<lparr>dCOOmat.row = 2, col = 2, nnz = 0, I = [], J = [], val = []\<rparr>
   \<and> fasp_dmtxsym_read
       (Some (''2 2 2'' @ [CHR 0x0A] @ ''1 1 4'' @ [CHR 0x0A] @ ''2 1 -1'' @ [CHR 0x0A]))
     = Inl Outside_array
   \<and> fasp_dmtxsym_read
       (Some (''%%MatrixMarket matrix coordinate real symmetric'' @ [CHR 0x0A]
              @ ''2 2 3'' @ [CHR 0x0A] @ ''1 1 4'' @ [CHR 0x0A] @ ''2 1 -1''
              @ [CHR 0x0A] @ ''2 2 4'' @ [CHR 0x0A]))
     = Inl Indeterminate"
  by (simp add: scan_defs dmtxsym_defs)
section \<open>Vector algebra: length checks\<close>

lemma axpy_length_check:
  assumes "- (2 ^ 31) \<le> dvector.row x" "dvector.row x < 2 ^ 31" "- (2 ^ 31) \<le> dvector.row y" "dvector.row y < 2 ^ 31"
    and "dvector.row x \<noteq> dvector.row y"
  shows "fasp_blas_dvec_axpy a x y = Inl (Exit ERROR_DATA_STRUCTURE)"
    and "fasp_blas_dvec_axpyz a x y z = Inl (Exit ERROR_DATA_STRUCTURE)"
proof -
  have "(dvector.row y - dvector.row x mod 2 ^ 32) mod 2 ^ 32 = (dvector.row y - dvector.row x) mod 2 ^ 32"
    by (simp add: mod_diff_right_eq)
  moreover have "(dvector.row y - dvector.row x) mod 2 ^ 32 \<noteq> 0"
  proof
    assume "(dvector.row y - dvector.row x) mod 2 ^ 32 = 0"
    then have "(2 ^ 32 :: int) dvd dvector.row y - dvector.row x" by (simp add: dvd_eq_mod_eq_0)
    then obtain k where k: "dvector.row y - dvector.row x = 2 ^ 32 * k" by (auto simp: dvd_def)
    with assms show False by (cases "k \<le> 0"; cases "k = 0"; simp; arith)
  qed
  ultimately show "fasp_blas_dvec_axpy a x y = Inl (Exit ERROR_DATA_STRUCTURE)"
    and "fasp_blas_dvec_axpyz a x y z = Inl (Exit ERROR_DATA_STRUCTURE)"
    by (simp_all add: fasp_blas_dvec_axpy_def fasp_blas_dvec_axpyz_def Let_def)
qed

lemma dotprod_loop_no_exit: "dotprod_loop xpt ypt v i k \<noteq> Inl (Exit c)"
  by (induction k arbitrary: v i) auto

lemma dotprod_no_exit: "fasp_blas_dvec_dotprod x y \<noteq> Inl (Exit c)"
  by (simp add: fasp_blas_dvec_dotprod_def dotprod_loop_no_exit)

text \<open>
  Claim C8. Every operation on two dense vectors is claimed to fail with a length-mismatch
  error when the \<open>row\<close> fields differ. \<open>fasp_blas_dvec_axpy\<close> and
  \<open>fasp_blas_dvec_axpyz\<close> do (\<open>axpy_length_check\<close>), but
  \<open>fasp_blas_dvec_dotprod\<close> has no such test: on the well-formed vectors \<open>x = (1, [2])\<close>
  and \<open>y = (2, [3, 4])\<close> it returns the number \<open>6\<close>, where \<open>fasp_blas_dvec_axpy\<close> on the
  same pair exits with \<open>ERROR_DATA_STRUCTURE\<close>.
\<close>

theorem C8_dotprod_returns_number_on_mismatch:
  "dvec_wf \<lparr>dvector.row = 1, val = [2]\<rparr> \<and> dvec_wf \<lparr>dvector.row = 2, val = [3, 4]\<rparr>
   \<and> dvector.row \<lparr>dvector.row = 1, val = [2]\<rparr> \<noteq> dvector.row \<lparr>dvector.row = 2, val = [3, 4]\<rparr>
   \<and> fasp_blas_dvec_dotprod \<lparr>dvector.row = 1, val = [2]\<rparr> \<lparr>dvector.row = 2, val = [3, 4]\<rparr> = Inr 6
   \<and> fasp_blas_dvec_axpy 1 \<lparr>dvector.row = 1, val = [2]\<rparr> \<lparr>dvector.row = 2, val = [3, 4]\<rparr>
       = Inl (Exit ERROR_DATA_STRUCTURE)"
  by (simp add: dvec_wf_def fasp_blas_dvec_dotprod_def fasp_blas_dvec_axpy_def)




lemma block_result_unique:
  "block_result a ao b c co n r \<Longrightarrow> block_result a ao b c co n r' \<Longrightarrow> r = r'"
  by (auto simp: block_result_def intro!: nth_equalityI)

section \<open>Dense block kernels: every variant computes the block product\<close>

lemma mxv_dot_loop_run:
  assumes "for_loop 0 n (mxv_dot_body a base b) t = Some r"
  shows "r = t + sum_list (map (\<lambda>j. a ! nat (base + j) * b ! nat j) [0 .. n - 1])
       \<and> (1 \<le> n \<longrightarrow> 0 \<le> base \<and> base + n \<le> int (length a) \<and> n \<le> int (length b))"
proof (cases "0 \<le> n")
  case True
  let ?Inv = "\<lambda>k s. s = t + sum_list (map (\<lambda>j. a ! nat (base + j) * b ! nat j) [0 .. k - 1])
       \<and> (1 \<le> k \<longrightarrow> 0 \<le> base \<and> base + k \<le> int (length a) \<and> k \<le> int (length b))"
  have "?Inv n r"
  proof (rule for_loop_inv [OF assms _ True, where Inv = ?Inv])
    show "?Inv 0 t" by simp
  next
    fix k s s'
    assume k: "0 \<le> k" "k < n" and inv: "?Inv k s" and body: "mxv_dot_body a base b k s = Some s'"
    from body obtain x y where xy: "rd a (base + k) = Some x" "rd b k = Some y" "s' = s + x * y"
      by (auto simp: mxv_dot_body_def split: Option.bind_splits)
    from xy(1,2) have bd: "0 \<le> base + k" "base + k < int (length a)" "k < int (length b)"
      "x = a ! nat (base + k)" "y = b ! nat k" by (auto dest!: rd_SomeD)
    have up: "[0 .. k] = [0 .. k - 1] @ [k]" using k by (simp add: upto_rec2)
    have "0 \<le> base" using inv bd(1) by (cases "k = 0") auto
    with inv xy(3) bd show "?Inv (k + 1) s'" by (simp add: up)
  qed
  then show ?thesis .
next
  case False
  with assms show ?thesis by (simp add: for_loop_empty)
qed

lemma mxv_dot_loop_total:
  assumes "0 \<le> base" "base + n \<le> int (length a)" "n \<le> int (length b)"
  shows "\<exists>r. for_loop 0 n (mxv_dot_body a base b) t = Some r"
proof (rule for_loop_total [where Inv = "\<lambda>k s. True"])
  fix k s assume "0 \<le> k" "k < n"
  with assms show "\<exists>t'. mxv_dot_body a base b k s = Some t' \<and> True"
    by (simp add: mxv_dot_body_def rd_def)
qed simp


lemma block_rows_fit:
  assumes "0 \<le> k" "k < n" "ao + n * n \<le> (L :: int)" "0 \<le> ao"
  shows "0 \<le> ao + k * n" "ao + k * n + n \<le> L"
proof -
  have "(k + 1) * n \<le> n * n" using assms(1,2) by (intro mult_right_mono) auto
  then show "ao + k * n + n \<le> L" using assms(3) by (simp add: algebra_simps)
  have "0 \<le> k * n" using assms(1,2) by simp
  then show "0 \<le> ao + k * n" using assms(4) by simp
qed


lemma mxv_default_iff:
  assumes n: "1 \<le> n"
  shows "for_loop 0 n (mxv_row_body a ao b co n) c = Some r
         \<longleftrightarrow> block_inb a ao b c co n \<and> block_result a ao b c co n r"
proof -
  have fwd: "\<And>r. for_loop 0 n (mxv_row_body a ao b co n) c = Some r
         \<Longrightarrow> block_inb a ao b c co n \<and> block_result a ao b c co n r"
  proof -
    fix r assume run: "for_loop 0 n (mxv_row_body a ao b co n) c = Some r"
    let ?Q = "\<lambda>k. 0 \<le> ao + k * n \<and> ao + k * n + n \<le> int (length a) \<and> n \<le> int (length b)"
    have "length r = length c
       \<and> (\<forall>m < length c. r ! m =
            (if co \<le> int m \<and> int m < co + n then (\<lambda>k old. block_dot a ao b n k) (int m - co) (c ! m) else c ! m))
       \<and> (1 \<le> n \<longrightarrow> 0 \<le> co \<and> co + n \<le> int (length c))
       \<and> (\<forall>k. 0 \<le> k \<and> k < n \<longrightarrow> ?Q k)"
    proof (rule for_loop_cells [OF run])
      fix k s s'
      assume k: "0 \<le> k" "k < n" and body: "mxv_row_body a ao b co n k s = Some s'"
      from body obtain temp where t: "for_loop 0 n (mxv_dot_body a (ao + k * n) b) 0 = Some temp"
        "wr s (co + k) temp = Some s'"
        by (auto simp: mxv_row_body_def split: Option.bind_splits)
      from mxv_dot_loop_run [OF t(1)] n have "temp = block_dot a ao b n k" "?Q k"
        by (simp_all add: block_dot_def)
      with t(2) show "0 \<le> co + k \<and> co + k < int (length s)
         \<and> s' = s[nat (co + k) := block_dot a ao b n k] \<and> ?Q k"
        by (auto dest!: wr_SomeD)
    qed
    then have res: "block_result a ao b c co n r" and cb: "0 \<le> co" "co + n \<le> int (length c)"
      and Q: "\<And>k. 0 \<le> k \<Longrightarrow> k < n \<Longrightarrow> ?Q k"
      using n by (auto simp: block_result_def)
    from Q [of 0] Q [of "n - 1"] n have "0 \<le> ao" "ao + n * n \<le> int (length a)" "n \<le> int (length b)"
      by (simp_all add: algebra_simps)
    with res cb show "block_inb a ao b c co n \<and> block_result a ao b c co n r"
      by (simp add: block_inb_def)
  qed
  have tot: "block_inb a ao b c co n \<Longrightarrow> \<exists>r. for_loop 0 n (mxv_row_body a ao b co n) c = Some r"
  proof -
    assume inb: "block_inb a ao b c co n"
    show ?thesis
    proof (rule for_loop_total [where Inv = "\<lambda>k (s :: real list). length s = length c"])
      fix k and s :: "real list" assume k: "0 \<le> k" "k < n" and l: "length s = length c"
      from inb have "0 \<le> ao" "ao + n * n \<le> int (length a)" by (simp_all add: block_inb_def)
      from block_rows_fit [OF k this(2,1)] inb
      obtain temp where "for_loop 0 n (mxv_dot_body a (ao + k * n) b) 0 = Some temp"
        using mxv_dot_loop_total [of "ao + k * n" n a b 0] by (auto simp: block_inb_def)
      with inb k l show "\<exists>t'. mxv_row_body a ao b co n k s = Some t' \<and> length t' = length c"
        by (simp add: mxv_row_body_def wr_def block_inb_def)
    qed simp
  qed
  show ?thesis
  proof
    assume "for_loop 0 n (mxv_row_body a ao b co n) c = Some r"
    then show "block_inb a ao b c co n \<and> block_result a ao b c co n r" by (rule fwd)
  next
    assume a: "block_inb a ao b c co n \<and> block_result a ao b c co n r"
    with tot obtain r' where r': "for_loop 0 n (mxv_row_body a ao b co n) c = Some r'" by blast
    from fwd [OF r'] a have "r' = r" by (blast intro: block_result_unique)
    with r' show "for_loop 0 n (mxv_row_body a ao b co n) c = Some r" by simp
  qed
qed



lemma mxv_nc2_inb:
  assumes "fasp_blas_smat_mxv_nc2 a ao b c co = Some r"
  shows "block_inb a ao b c co 2"
  using assms unfolding fasp_blas_smat_mxv_nc2_def
  by (auto simp: block_inb_def split: Option.bind_splits dest!: rd_SomeD wr_SomeD)

lemma mxv_nc2_default:
  "fasp_blas_smat_mxv_nc2 a ao b c co = for_loop 0 2 (mxv_row_body a ao b co 2) c"
proof (cases "block_inb a ao b c co 2")
  case True
  then show ?thesis
    by (simp add: fasp_blas_smat_mxv_nc2_def for_loop.simps mxv_row_body_def mxv_dot_body_def
        rd_def wr_def block_inb_def ac_simps cong: bind_weak_cong)
next
  case False
  with mxv_nc2_inb have "fasp_blas_smat_mxv_nc2 a ao b c co = None"
    by (cases "fasp_blas_smat_mxv_nc2 a ao b c co") auto
  moreover from False mxv_default_iff [of 2 a ao b co c]
  have "for_loop 0 2 (mxv_row_body a ao b co 2) c = None"
    by (cases "for_loop 0 2 (mxv_row_body a ao b co 2) c") auto
  ultimately show ?thesis by simp
qed

lemma mxv_nc3_inb:
  assumes "fasp_blas_smat_mxv_nc3 a ao b c co = Some r"
  shows "block_inb a ao b c co 3"
  using assms unfolding fasp_blas_smat_mxv_nc3_def
  by (auto simp: block_inb_def split: Option.bind_splits dest!: rd_SomeD wr_SomeD)

lemma mxv_nc3_default:
  "fasp_blas_smat_mxv_nc3 a ao b c co = for_loop 0 3 (mxv_row_body a ao b co 3) c"
proof (cases "block_inb a ao b c co 3")
  case True
  then show ?thesis
    by (simp add: fasp_blas_smat_mxv_nc3_def for_loop.simps mxv_row_body_def mxv_dot_body_def
        rd_def wr_def block_inb_def ac_simps cong: bind_weak_cong)
next
  case False
  with mxv_nc3_inb have "fasp_blas_smat_mxv_nc3 a ao b c co = None"
    by (cases "fasp_blas_smat_mxv_nc3 a ao b c co") auto
  moreover from False mxv_default_iff [of 3 a ao b co c]
  have "for_loop 0 3 (mxv_row_body a ao b co 3) c = None"
    by (cases "for_loop 0 3 (mxv_row_body a ao b co 3) c") auto
  ultimately show ?thesis by simp
qed

lemma mxv_nc5_inb:
  assumes "fasp_blas_smat_mxv_nc5 a ao b c co = Some r"
  shows "block_inb a ao b c co 5"
  using assms unfolding fasp_blas_smat_mxv_nc5_def
  by (auto simp: block_inb_def split: Option.bind_splits dest!: rd_SomeD wr_SomeD)

lemma mxv_nc5_default:
  "fasp_blas_smat_mxv_nc5 a ao b c co = for_loop 0 5 (mxv_row_body a ao b co 5) c"
proof (cases "block_inb a ao b c co 5")
  case True
  then show ?thesis
    by (simp add: fasp_blas_smat_mxv_nc5_def for_loop.simps mxv_row_body_def mxv_dot_body_def
        rd_def wr_def block_inb_def ac_simps cong: bind_weak_cong)
next
  case False
  with mxv_nc5_inb have "fasp_blas_smat_mxv_nc5 a ao b c co = None"
    by (cases "fasp_blas_smat_mxv_nc5 a ao b c co") auto
  moreover from False mxv_default_iff [of 5 a ao b co c]
  have "for_loop 0 5 (mxv_row_body a ao b co 5) c = None"
    by (cases "for_loop 0 5 (mxv_row_body a ao b co 5) c") auto
  ultimately show ?thesis by simp
qed

lemma mxv_nc7_inb:
  assumes "fasp_blas_smat_mxv_nc7 a ao b c co = Some r"
  shows "block_inb a ao b c co 7"
  using assms unfolding fasp_blas_smat_mxv_nc7_def
  by (auto simp: block_inb_def split: Option.bind_splits dest!: rd_SomeD wr_SomeD)

lemma mxv_nc7_default:
  "fasp_blas_smat_mxv_nc7 a ao b c co = for_loop 0 7 (mxv_row_body a ao b co 7) c"
proof (cases "block_inb a ao b c co 7")
  case True
  then show ?thesis
    by (simp add: fasp_blas_smat_mxv_nc7_def for_loop.simps mxv_row_body_def mxv_dot_body_def
        rd_def wr_def block_inb_def ac_simps cong: bind_weak_cong)
next
  case False
  with mxv_nc7_inb have "fasp_blas_smat_mxv_nc7 a ao b c co = None"
    by (cases "fasp_blas_smat_mxv_nc7 a ao b c co") auto
  moreover from False mxv_default_iff [of 7 a ao b co c]
  have "for_loop 0 7 (mxv_row_body a ao b co 7) c = None"
    by (cases "for_loop 0 7 (mxv_row_body a ao b co 7) c") auto
  ultimately show ?thesis by simp
qed


lemma fasp_blas_smat_mxv_default:
  "fasp_blas_smat_mxv a ao b c co n = for_loop 0 n (mxv_row_body a ao b co n) c"
  by (simp add: fasp_blas_smat_mxv_def mxv_nc2_default mxv_nc3_default mxv_nc5_default
      mxv_nc7_default)

section \<open>saAxpby with \<open>alpha = 1\<close> and \<open>beta = 0\<close>\<close>

lemma scale_loop_run:
  assumes "for_loop 0 n (scale_body yo t) y = Some y'"
  shows "length y' = length y
       \<and> (\<forall>m < length y. y' ! m = (if yo \<le> int m \<and> int m < yo + n then y ! m * t else y ! m))
       \<and> (1 \<le> n \<longrightarrow> 0 \<le> yo \<and> yo + n \<le> int (length y))"
proof -
  have "length y' = length y
       \<and> (\<forall>m < length y. y' ! m =
            (if yo \<le> int m \<and> int m < yo + n then (\<lambda>k old. old * t) (int m - yo) (y ! m) else y ! m))
       \<and> (1 \<le> n \<longrightarrow> 0 \<le> yo \<and> yo + n \<le> int (length y))
       \<and> (\<forall>k. 0 \<le> k \<and> k < n \<longrightarrow> True)"
    by (rule for_loop_cells [OF assms])
       (auto simp: scale_body_def split: Option.bind_splits dest!: rd_SomeD wr_SomeD)
  then show ?thesis by simp
qed

lemma scale_loop_total:
  assumes "0 \<le> yo" "yo + n \<le> int (length y)"
  shows "\<exists>y'. for_loop 0 n (scale_body yo t) y = Some y'"
proof (rule for_loop_total [where Inv = "\<lambda>k (s :: real list). length s = length y"])
  fix k and s :: "real list" assume "0 \<le> k" "k < n" "length s = length y"
  with assms show "\<exists>t'. scale_body yo t k s = Some t' \<and> length t' = length y"
    by (simp add: scale_body_def rd_def wr_def)
qed simp

lemma add_inner_run:
  assumes run: "for_loop 0 n (saAxpby_add_body A ao x yo n i) y = Some y'" and n: "1 \<le> n"
  shows "0 \<le> yo + i \<and> yo + i < int (length y)
       \<and> y' = y[nat (yo + i) := y ! nat (yo + i) + block_dot A ao x n i]
       \<and> 0 \<le> ao + i * n \<and> ao + i * n + n \<le> int (length A) \<and> n \<le> int (length x)"
proof -
  let ?S = "\<lambda>k. sum_list (map (\<lambda>j. A ! nat (ao + i * n + j) * x ! nat j) [0 .. k - 1])"
  let ?Inv = "\<lambda>k s. s = y[nat (yo + i) := y ! nat (yo + i) + ?S k]
       \<and> (1 \<le> k \<longrightarrow> 0 \<le> yo + i \<and> yo + i < int (length y)
            \<and> 0 \<le> ao + i * n \<and> ao + i * n + k \<le> int (length A) \<and> k \<le> int (length x))"
  have n0: "0 \<le> n" using n by simp
  have "?Inv n y'"
  proof (rule for_loop_inv [OF run _ n0, where Inv = ?Inv])
    show "?Inv 0 y" by simp
  next
    fix k s s'
    assume k: "0 \<le> k" "k < n" and inv: "?Inv k s"
      and body: "saAxpby_add_body A ao x yo n i k s = Some s'"
    from inv have i1: "s = y[nat (yo + i) := y ! nat (yo + i) + ?S k]"
      and i2: "1 \<le> k \<Longrightarrow> 0 \<le> ao + i * n" by blast+
    from body obtain v av xv where r: "rd s (yo + i) = Some v" "rd A (ao + (i * n + k)) = Some av"
      "rd x k = Some xv" "wr s (yo + i) (v + av * xv) = Some s'"
      by (auto simp: saAxpby_add_body_def split: Option.bind_splits)
    have ls: "length s = length y" using i1 by simp
    from r(1) ls have c: "0 \<le> yo + i" "yo + i < int (length y)" "v = s ! nat (yo + i)"
      by (auto dest!: rd_SomeD)
    with i1 have v: "v = y ! nat (yo + i) + ?S k" by simp
    from r(2,3) have bd: "0 \<le> ao + (i * n + k)" "ao + (i * n + k) < int (length A)"
      "k < int (length x)" "av = A ! nat (ao + i * n + k)" "xv = x ! nat k"
      by (auto dest!: rd_SomeD simp: add.assoc)
    have a0: "0 \<le> ao + i * n" using i2 bd(1) k by (cases "k = 0") auto
    have up: "[0 .. k] = [0 .. k - 1] @ [k]" using k by (simp add: upto_rec2)
    from r(4) have "s' = s[nat (yo + i) := v + av * xv]" by (auto dest!: wr_SomeD)
    then have "s' = y[nat (yo + i) := v + av * xv]"
      by (subst (asm) i1) simp
    moreover have "v + av * xv = y ! nat (yo + i) + ?S (k + 1)"
      by (simp add: v bd(4,5) up)
    ultimately have "s' = y[nat (yo + i) := y ! nat (yo + i) + ?S (k + 1)]" by simp
    with c a0 bd show "?Inv (k + 1) s'" by simp
  qed
  with n show ?thesis by (simp add: block_dot_def)
qed

lemma add_inner_total:
  assumes "0 \<le> yo + i" "yo + i < int (length y)" "0 \<le> ao + i * n"
    "ao + i * n + n \<le> int (length A)" "n \<le> int (length x)"
  shows "\<exists>y'. for_loop 0 n (saAxpby_add_body A ao x yo n i) y = Some y' \<and> length y' = length y"
proof -
  have "\<exists>y'. for_loop 0 n (saAxpby_add_body A ao x yo n i) y = Some y'"
  proof (rule for_loop_total [where Inv = "\<lambda>k (s :: real list). length s = length y"])
    fix k and s :: "real list" assume "0 \<le> k" "k < n" "length s = length y"
    with assms show "\<exists>t'. saAxpby_add_body A ao x yo n i k s = Some t' \<and> length t' = length y"
      by (simp add: saAxpby_add_body_def rd_def wr_def)
  qed simp
  then obtain y' where y': "for_loop 0 n (saAxpby_add_body A ao x yo n i) y = Some y'" by blast
  show ?thesis
  proof (cases "1 \<le> n")
    case True
    from add_inner_run [OF y' True] y' show ?thesis by auto
  next
    case False
    with y' show ?thesis by (simp add: for_loop_empty)
  qed
qed

lemma saAxpby_iff:
  assumes n: "1 \<le> n"
  shows "saAxpby 1 0 n A ao x y yo = Some r
         \<longleftrightarrow> block_inb A ao x y yo n \<and> block_result A ao x y yo n r"
proof -
  let ?add = "\<lambda>i. for_loop 0 n (saAxpby_add_body A ao x yo n i)"
  have unf: "\<And>r. saAxpby 1 0 n A ao x y yo = Some r \<longleftrightarrow>
     (\<exists>y1 y2. for_loop 0 n (scale_body yo 0) y = Some y1 \<and> for_loop 0 n ?add y1 = Some y2
        \<and> for_loop 0 n (scale_body yo 1) y2 = Some r)"
    by (auto simp: saAxpby_def div_checked_def split: Option.bind_splits)
  have fwd: "\<And>r. saAxpby 1 0 n A ao x y yo = Some r
         \<Longrightarrow> block_inb A ao x y yo n \<and> block_result A ao x y yo n r"
  proof -
    fix r assume "saAxpby 1 0 n A ao x y yo = Some r"
    with unf obtain y1 y2 where l1: "for_loop 0 n (scale_body yo 0) y = Some y1"
      and l2: "for_loop 0 n ?add y1 = Some y2" and l3: "for_loop 0 n (scale_body yo 1) y2 = Some r"
      by blast
    from scale_loop_run [OF l1] n have y1: "length y1 = length y"
      "\<And>m. m < length y \<Longrightarrow> y1 ! m = (if yo \<le> int m \<and> int m < yo + n then 0 else y ! m)"
      "0 \<le> yo" "yo + n \<le> int (length y)" by auto
    let ?Q = "\<lambda>k. 0 \<le> ao + k * n \<and> ao + k * n + n \<le> int (length A) \<and> n \<le> int (length x)"
    have "length y2 = length y1
       \<and> (\<forall>m < length y1. y2 ! m =
            (if yo \<le> int m \<and> int m < yo + n
             then (\<lambda>k old. old + block_dot A ao x n k) (int m - yo) (y1 ! m) else y1 ! m))
       \<and> (1 \<le> n \<longrightarrow> 0 \<le> yo \<and> yo + n \<le> int (length y1))
       \<and> (\<forall>k. 0 \<le> k \<and> k < n \<longrightarrow> ?Q k)"
    proof (rule for_loop_cells [OF l2])
      fix k s s'
      assume "0 \<le> k" "k < n" and body: "?add k s = Some s'"
      from add_inner_run [OF body n]
      show "0 \<le> yo + k \<and> yo + k < int (length s)
         \<and> s' = s[nat (yo + k) := s ! nat (yo + k) + block_dot A ao x n k] \<and> ?Q k"
        by simp
    qed
    then have y2: "length y2 = length y"
      "\<And>m. m < length y \<Longrightarrow> y2 ! m =
            (if yo \<le> int m \<and> int m < yo + n then block_dot A ao x n (int m - yo) else y ! m)"
      and Q: "\<And>k. 0 \<le> k \<Longrightarrow> k < n \<Longrightarrow> ?Q k"
      using y1 by auto
    from scale_loop_run [OF l3] y2 have "block_result A ao x y yo n r"
      by (auto simp: block_result_def)
    moreover from Q [of 0] Q [of "n - 1"] n
    have "0 \<le> ao" "ao + n * n \<le> int (length A)" "n \<le> int (length x)"
      by (simp_all add: algebra_simps)
    ultimately show "block_inb A ao x y yo n \<and> block_result A ao x y yo n r"
      using y1(3,4) by (simp add: block_inb_def)
  qed
  have tot: "block_inb A ao x y yo n \<Longrightarrow> \<exists>r. saAxpby 1 0 n A ao x y yo = Some r"
  proof -
    assume inb: "block_inb A ao x y yo n"
    then have b: "0 \<le> ao" "ao + n * n \<le> int (length A)" "n \<le> int (length x)"
      "0 \<le> yo" "yo + n \<le> int (length y)" by (simp_all add: block_inb_def)
    from scale_loop_total [OF b(4,5)] obtain y1 where l1: "for_loop 0 n (scale_body yo 0) y = Some y1"
      by blast
    from scale_loop_run [OF l1] have ly1: "length y1 = length y" by simp
    have "\<exists>y2. for_loop 0 n ?add y1 = Some y2"
    proof (rule for_loop_total [where Inv = "\<lambda>k (s :: real list). length s = length y"])
      fix k and s :: "real list" assume k: "0 \<le> k" "k < n" and l: "length s = length y"
      from add_inner_total [of yo k s ao n A x] block_rows_fit [OF k b(2,1)] b k l
      show "\<exists>t'. ?add k s = Some t' \<and> length t' = length y" by auto
    qed (simp add: ly1)
    then obtain y2 where l2: "for_loop 0 n ?add y1 = Some y2" by blast
    have "length y2 = length y1"
    proof -
      have "length y2 = length y1 \<and> (\<forall>m < length y1. y2 ! m =
            (if yo \<le> int m \<and> int m < yo + n
             then (\<lambda>k old. old + block_dot A ao x n k) (int m - yo) (y1 ! m) else y1 ! m))
        \<and> (1 \<le> n \<longrightarrow> 0 \<le> yo \<and> yo + n \<le> int (length y1))
        \<and> (\<forall>k. 0 \<le> k \<and> k < n \<longrightarrow> True)"
      proof (rule for_loop_cells [OF l2])
        fix k s s'
        assume "0 \<le> k" "k < n" and body: "?add k s = Some s'"
        from add_inner_run [OF body n]
        show "0 \<le> yo + k \<and> yo + k < int (length s)
           \<and> s' = s[nat (yo + k) := s ! nat (yo + k) + block_dot A ao x n k] \<and> True"
          by simp
      qed
      then show ?thesis by simp
    qed
    with ly1 b have "yo + n \<le> int (length y2)" by simp
    from scale_loop_total [OF b(4) this] obtain r where "for_loop 0 n (scale_body yo 1) y2 = Some r"
      by blast
    with l1 l2 unf show ?thesis by blast
  qed
  show ?thesis
  proof
    assume "saAxpby 1 0 n A ao x y yo = Some r"
    then show "block_inb A ao x y yo n \<and> block_result A ao x y yo n r" by (rule fwd)
  next
    assume a: "block_inb A ao x y yo n \<and> block_result A ao x y yo n r"
    with tot obtain r' where r': "saAxpby 1 0 n A ao x y yo = Some r'" by blast
    from fwd [OF r'] a have "r' = r" by (blast intro: block_result_unique)
    with r' show "saAxpby 1 0 n A ao x y yo = Some r" by simp
  qed
qed

lemma mxv_eq_saAxpby:
  assumes "1 \<le> n"
  shows "fasp_blas_smat_mxv a ao b c co n = saAxpby 1 0 n a ao b c co"
  unfolding fasp_blas_smat_mxv_default
  by (rule option_eq_by_iff [where P = "\<lambda>r. block_inb a ao b c co n \<and> block_result a ao b c co n r"])
     (rule mxv_default_iff [OF assms], rule saAxpby_iff [OF assms])

lemma gs_point_eq_sor: "gs_point_body A b_val = sor_point_body A b_val 1"
proof (intro ext)
  fix point u_val
  show "gs_point_body A b_val point u_val = sor_point_body A b_val 1 point u_val"
    by (auto simp: gs_point_body_def sor_point_body_def rd_def wr_def
        split: Option.bind_splits intro!: Option.bind_cong)
qed

lemma gs_block_eq_sor:
  assumes "1 < nc A"
  shows "gs_block_body A b_val diaginv = sor_block_body A b_val diaginv 1"
proof (intro ext)
  fix block st
  from assms have "1 \<le> nc A" by simp
  then show "gs_block_body A b_val diaginv block st = sor_block_body A b_val diaginv 1 block st"
    by (simp add: gs_block_body_def sor_block_body_def mxv_eq_saAxpby split: prod.splits)
qed


section \<open>SOR with weight one is Gauss-Seidel\<close>

text \<open>One ascending Gauss-Seidel sweep on the matrix with diagonal \<open>[2, 2]\<close> and the two
  bands \<open>-1\<close> and \<open>1\<close>, from \<open>u = [0, 0]\<close> with \<open>b = [2, 3]\<close>.\<close>

lemma gs_ascend_example:
  "fasp_smoother_dstr_gs_ascend
     \<lparr>ngrid = 2, nc = 1, nband = 2, offsets = [- 1, 1], diag = [2, 2], offdiag = [[- 1], [- 1]]\<rparr>
     [2, 3] [0, 0] [] = Some [1, 2]"
  by (simp add: fasp_smoother_dstr_gs_ascend_def gs_point_body_def str_band_point_def
      for_loop.simps rd_def wr_def div_checked_def cong: bind_weak_cong)

text \<open>
  Claim C9. For every STR matrix, right-hand side, initial iterate and array of inverted
  diagonal blocks, one ascending SOR sweep with weight \<open>1\<close> returns what one ascending
  Gauss-Seidel sweep returns: the same new iterate, or in both cases no result (an access
  outside an array or a zero diagonal entry). Arithmetic is that of the real numbers.
\<close>

theorem C9_sor_weight_one_is_gs:
  "fasp_smoother_dstr_sor_ascend A b_val u_val diaginv 1
   = fasp_smoother_dstr_gs_ascend A b_val u_val diaginv"
  by (simp add: fasp_smoother_dstr_sor_ascend_def fasp_smoother_dstr_gs_ascend_def
      gs_point_eq_sor gs_block_eq_sor)


section \<open>Diaginv on a row without diagonal entry\<close>

lemma Diaginv_scan_no_diag:
  assumes "\<forall>k \<in> {j ..< e}. ja ! nat k \<noteq> i" "Diaginv_scan ja i j e = Some r" "j \<le> e"
  shows "r = e"
  using assms
proof (induction ja i j e rule: Diaginv_scan.induct)
  case (1 ja i j e)
  show ?case
  proof (cases "j < e")
    case True
    from "1.prems"(2) True obtain c where c: "rd ja j = Some c"
      "(if i = c then Some j else Diaginv_scan ja i (j + 1) e) = Some r"
      by (subst (asm) Diaginv_scan.simps) (auto split: Option.bind_splits)
    from c(1) have cj: "c = ja ! nat j" by (auto simp: rd_def split: if_splits)
    from "1.prems"(1) True have "ja ! nat j \<noteq> i" by simp
    with c cj have rec: "Diaginv_scan ja i (j + 1) e = Some r" by auto
    from "1.prems"(1) have "\<forall>k \<in> {j + 1 ..< e}. ja ! nat k \<noteq> i" by simp
    with "1.IH" [OF True c(1)] rec cj \<open>ja ! nat j \<noteq> i\<close> True show ?thesis by auto
  next
    case False
    with "1.prems" show ?thesis by (subst (asm) Diaginv_scan.simps) simp
  qed
qed

lemma Diaginv_loop_length:
  "Diaginv_loop Amat Dinv i = Some D \<Longrightarrow> length D = length Dinv"
proof (induction Amat Dinv i rule: Diaginv_loop.induct)
  case (1 Amat Dinv i)
  show ?case
  proof (cases "i < dCSRmat.row Amat")
    case True
    with "1.prems" obtain b e j aj Dinv' where s:
      "rd (dCSRmat.IA Amat) i = Some b" "rd (dCSRmat.IA Amat) (i + 1) = Some e"
      "Diaginv_scan (dCSRmat.JA Amat) i b e = Some j" "rd (dCSRmat.val Amat) j = Some aj"
      "wr Dinv i (fdiv 1 aj) = Some Dinv'" "Diaginv_loop Amat Dinv' (i + 1) = Some D"
      by (subst (asm) Diaginv_loop.simps) (auto split: Option.bind_splits)
    from "1.IH" [OF True s] have "length D = length Dinv'" .
    moreover from s(5) have "length Dinv' = length Dinv" by (auto simp: wr_def split: if_splits)
    ultimately show ?thesis by simp
  next
    case False
    with "1.prems" show ?thesis by (subst (asm) Diaginv_loop.simps) simp
  qed
qed

lemma Diaginv_loop_below:
  "Diaginv_loop Amat Dinv i = Some D \<Longrightarrow> 0 \<le> k \<Longrightarrow> k < i \<Longrightarrow> D ! nat k = Dinv ! nat k"
proof (induction Amat Dinv i rule: Diaginv_loop.induct)
  case (1 Amat Dinv i)
  show ?case
  proof (cases "i < dCSRmat.row Amat")
    case True
    with "1.prems"(1) obtain b e j aj Dinv' where s:
      "rd (dCSRmat.IA Amat) i = Some b" "rd (dCSRmat.IA Amat) (i + 1) = Some e"
      "Diaginv_scan (dCSRmat.JA Amat) i b e = Some j" "rd (dCSRmat.val Amat) j = Some aj"
      "wr Dinv i (fdiv 1 aj) = Some Dinv'" "Diaginv_loop Amat Dinv' (i + 1) = Some D"
      by (subst (asm) Diaginv_loop.simps) (auto split: Option.bind_splits)
    from "1.IH" [OF True s] "1.prems" have "D ! nat k = Dinv' ! nat k" by simp
    moreover from s(5) "1.prems" have "Dinv' ! nat k = Dinv ! nat k"
      by (auto simp: wr_def split: if_splits)
    ultimately show ?thesis by simp
  next
    case False
    with "1.prems" show ?thesis by (subst (asm) Diaginv_loop.simps) simp
  qed
qed

lemma Diaginv_loop_no_diag:
  assumes "Diaginv_loop Amat Dinv i0 = Some D" "0 \<le> i0" "i0 \<le> i" "i < dCSRmat.row Amat"
    and "no_diag Amat i" "dCSRmat.IA Amat ! nat i \<le> dCSRmat.IA Amat ! nat (i + 1)"
  shows "D ! nat i = fdiv 1 (dCSRmat.val Amat ! nat (dCSRmat.IA Amat ! nat (i + 1)))"
  using assms
proof (induction Amat Dinv i0 rule: Diaginv_loop.induct)
  case (1 Amat Dinv i0)
  from "1.prems" have lt: "i0 < dCSRmat.row Amat" by simp
  with "1.prems"(1) obtain b e j aj Dinv' where s:
    "rd (dCSRmat.IA Amat) i0 = Some b" "rd (dCSRmat.IA Amat) (i0 + 1) = Some e"
    "Diaginv_scan (dCSRmat.JA Amat) i0 b e = Some j" "rd (dCSRmat.val Amat) j = Some aj"
    "wr Dinv i0 (fdiv 1 aj) = Some Dinv'" "Diaginv_loop Amat Dinv' (i0 + 1) = Some D"
    by (subst (asm) Diaginv_loop.simps) (auto split: Option.bind_splits)
  show ?case
  proof (cases "i0 = i")
    case True
    from s(1,2) "1.prems"(2) have be: "b = dCSRmat.IA Amat ! nat i0" "e = dCSRmat.IA Amat ! nat (i0 + 1)"
      by (auto simp: rd_def split: if_splits)
    from "1.prems"(5) True be have "\<forall>k \<in> {b ..< e}. dCSRmat.JA Amat ! nat k \<noteq> i0"
      by (simp add: no_diag_def)
    from Diaginv_scan_no_diag [OF this s(3)] "1.prems"(6) True be have "j = e" by simp
    with s(4) have aj: "aj = dCSRmat.val Amat ! nat e" by (auto simp: rd_def split: if_splits)
    from s(5) "1.prems"(2) have "Dinv' ! nat i0 = fdiv 1 aj"
      by (auto simp: wr_def split: if_splits)
    moreover from Diaginv_loop_below [OF s(6), of i0] "1.prems"(2)
    have "D ! nat i0 = Dinv' ! nat i0" by simp
    ultimately show ?thesis using aj be True by simp
  next
    case False
    with "1.prems" have "i0 + 1 \<le> i" by simp
    with "1.IH" [OF lt s] "1.prems" show ?thesis by simp
  qed
qed

text \<open>
  Claim C10. \<open>Diaginv\<close> tests neither that a row holds a diagonal entry nor that the entry
  is nonzero. Whenever it runs through (no access outside an array), a row \<open>i\<close> that stores
  no entry in column \<open>i\<close> gets \<open>Dinv[i] = 1.0 / a[IA[i+1]]\<close>: the scan stops at
  \<open>j = IA[i+1]\<close>, the first cell after the row, and the routine divides by that cell.
\<close>

theorem C10_Diaginv_row_without_diagonal:
  assumes "Diaginv Amat Dinv = Some D"
    and "0 \<le> i" "i < dCSRmat.row Amat"
    and "dCSRmat.IA Amat ! nat i \<le> dCSRmat.IA Amat ! nat (i + 1)"
    and "no_diag Amat i"
  shows "D ! nat i = fdiv 1 (dCSRmat.val Amat ! nat (dCSRmat.IA Amat ! nat (i + 1)))"
  using Diaginv_loop_no_diag [of Amat Dinv 0 D i] assms by (simp add: Diaginv_def)

text \<open>The matrix \<open>[[0, 2], [4, 1]]\<close> with the zero of row \<open>0\<close> not stored: \<open>Dinv[0]\<close> is
  \<open>1/4\<close>, the inverse of the first entry of row \<open>1\<close>.\<close>

theorem C10_Diaginv_row_without_diagonal_witness:
  "Diaginv \<lparr>dCSRmat.row = 2, col = 2, nnz = 3, IA = [0, 1, 3], JA = [1, 0, 1], val = [2, 4, 1]\<rparr>
     [Some 0, Some 0] = Some [Some (1 / 4), Some 1]
   \<and> no_diag \<lparr>dCSRmat.row = 2, col = 2, nnz = 3, IA = [0, 1, 3], JA = [1, 0, 1], val = [2, 4, 1]\<rparr> 0
   \<and> [Some (1 / 4), Some 1] ! nat 0 = fdiv 1 ([2, 4, 1 :: real] ! nat ([0, 1, 3] ! nat (0 + 1)))"
proof -
  let ?A = "\<lparr>dCSRmat.row = 2, col = 2, nnz = 3, IA = [0, 1, 3], JA = [1, 0, 1], val = [2, 4, 1]\<rparr>"
  have run: "Diaginv ?A [Some 0, Some 0] = Some [Some (1 / 4), Some 1]"
    by (simp add: Diaginv_def Diaginv_loop.simps Diaginv_scan.simps rd_def wr_def fdiv_def
          cong: bind_weak_cong)
  have nd: "no_diag ?A 0"
    by (simp add: no_diag_def)
  from C10_Diaginv_row_without_diagonal [OF run _ _ _ nd] run nd show ?thesis
    by simp
qed

section \<open>generate\_S: which entries stay in the strength matrix\<close>

lemma foldl_min_Min: "foldl min s xs = Min (insert (s :: real) (set xs))"
proof (induction xs arbitrary: s)
  case Nil then show ?case by simp
next
  case (Cons x xs)
  have "Min (insert (min s x) (set xs)) = Min (insert s (insert x (set xs)))"
    by (cases "set xs = {}") (simp_all add: min.assoc)
  with Cons show ?case by simp
qed

text \<open>\<open>row_scale\<close> is the least element of the stored values of the row together with \<open>0\<close>.\<close>

lemma S_row_scale_Min: "S_row_scale A i = Min (insert 0 (set (row_vals A i)))"
  by (simp add: S_row_scale_def foldl_min_Min)






















section \<open>BiCGstab with safe net: the exits of the loop\<close>

lemmas spbcgs_defs = spbcgs_def spbcgs_main_def spbcgs_finish_def spbcgs_init_def spbcgs_body_def before_check_III_def
  flow_bind_def step_alpha_def
  step_omega_def step_update_def compute_residuals_def save_best_def check_I_def reinit_def
  residuals_II_def residuals_III_def check_II_def check_III_def restore_bestsol_def
  finished_def precond_def true_residual_def maxdiff_def TOL_s_def
  fasp_blas_array_axpy_def fasp_blas_array_axpby_def fasp_blas_array_dotprod_def
  fasp_blas_array_norm2_def fasp_blas_array_norminf_def div_checked_def
  SMALLREAL_def BIGREAL_def STAG_RATIO_def MAX_STAG_def MAX_RESTART_def


lemma flow_bind_Next:
  "flow_bind x f = Some (Next s) \<longleftrightarrow> (\<exists>s1. x = Some (Next s1) \<and> f s1 = Some (Next s))"
  by (auto simp: flow_bind_def split: option.splits flow.splits)

lemma dotprod_commute: "fasp_blas_array_dotprod x y = fasp_blas_array_dotprod y x"
proof -
  have "map2 (\<lambda>xi yi. xi * yi) x y = map2 (\<lambda>xi yi. xi * yi) y (x :: real list)"
    by (induction x y rule: list_induct2') (simp_all add: mult.commute)
  then show ?thesis by (simp add: fasp_blas_array_dotprod_def)
qed

lemma reinit_fields:
  "w_r (reinit c st) = true_residual c (uval st)" "uval (reinit c st) = uval st"
  "tempr (reinit c st) = tempr st" "normr0 (reinit c st) = normr0 st" "w_t (reinit c st) = w_t st"
  "more_step (reinit c st) = more_step st"
  by (simp_all add: reinit_def Let_def)


lemma residuals_III_absres:
  assumes "stop c \<noteq> STOP_UNKNOWN"
  shows "absres (residuals_III c (reinit c st)) = stop_norm c (uval st)"
    and "uval (residuals_III c (reinit c st)) = uval st"
  using assms
  by (cases "stop c"; simp add: residuals_III_def stop_norm_def reinit_fields Let_def
      dotprod_commute [of "true_residual c (uval st)"])+









lemma restore_bestsol_iter_best: "iter_best (restore_bestsol c k st) = iter_best st"
  by (cases "stop c"; simp add: restore_bestsol_def Let_def)


subsection \<open>The value of \<open>tempr\<close> at Check III\<close>

lemma step_update_Next_fields:
  assumes "step_update c k st = Some (Next st')"
  shows "tempr st' = tempr st" "w_t st' = w_t st" "normr0 st' = normr0 st"
  using assms
  by (auto simp: step_update_def Let_def split: if_splits option.splits)

lemma compute_residuals_fields:
  "tempr (compute_residuals c st) = tempr st" "w_t (compute_residuals c st) = w_t st"
  "normr0 (compute_residuals c st) = normr0 st"
  by (cases "stop c"; simp add: compute_residuals_def Let_def)+

lemma save_best_fields:
  "tempr (save_best c k st) = tempr st" "w_t (save_best c k st) = w_t st"
  "normr0 (save_best c k st) = normr0 st"
  by (simp_all add: save_best_def)

lemma check_I_Next_fields:
  assumes "check_I c st = Some (Next st')"
  shows "tempr st' = tempr st" "w_t st' = w_t st" "normr0 st' = normr0 st"
  using assms by (auto simp: check_I_def Let_def split: if_splits)

lemma residuals_II_fields:
  "tempr (residuals_II c st) = tempr st" "w_t (residuals_II c st) = w_t st"
  "normr0 (residuals_II c st) = normr0 st"
  by (cases "stop c"; simp add: residuals_II_def Let_def)+

lemma check_II_Next_fields:
  assumes "check_II c st = Some (Next st')"
  shows "tempr st' = tempr st" "w_t st' = w_t st" "normr0 st' = normr0 st"
  using assms
  by (auto simp: check_II_def Let_def residuals_II_fields reinit_fields split: if_splits)

lemma step_omega_fields:
  "tempr (step_omega c st) = fasp_blas_array_dotprod (w_t (step_omega c st)) (w_t (step_omega c st))"
  "w_t (step_omega c st) = mxv c (precond c (fasp_blas_array_axpy (- alpha st) (w_z st) (w_r st)))"
  "normr0 (step_omega c st) = normr0 st"
  by (simp_all add: step_omega_def Let_def)

lemma step_alpha_Next_fields:
  assumes "step_alpha c k st = Some (Next st')"
  shows "normr0 st' = normr0 st"
  using assms by (auto simp: step_alpha_def Let_def split: if_splits)

lemma before_check_III_tempr:
  assumes "before_check_III c k st = Some (Next st4)"
  shows "tempr st4 = fasp_blas_array_dotprod (w_t st4) (w_t st4)" and "normr0 st4 = normr0 st"
proof -
  from assms obtain s1 s2 s3 where
    a: "step_alpha c k st = Some (Next s1)"
    and u: "step_update c k (step_omega c s1) = Some (Next s2)"
    and i: "check_I c (save_best c k (compute_residuals c s2)) = Some (Next s3)"
    and ii: "check_II c s3 = Some (Next st4)"
    unfolding before_check_III_def flow_bind_Next by blast
  have "tempr st4 = tempr (step_omega c s1)"
    by (simp add: check_II_Next_fields [OF ii] check_I_Next_fields [OF i] save_best_fields
        compute_residuals_fields step_update_Next_fields [OF u])
  moreover have "w_t st4 = w_t (step_omega c s1)"
    by (simp add: check_II_Next_fields [OF ii] check_I_Next_fields [OF i] save_best_fields
        compute_residuals_fields step_update_Next_fields [OF u])
  ultimately show "tempr st4 = fasp_blas_array_dotprod (w_t st4) (w_t st4)"
    by (simp add: step_omega_fields(1))
  show "normr0 st4 = normr0 st"
    by (simp add: check_II_Next_fields [OF ii] check_I_Next_fields [OF i] save_best_fields
        compute_residuals_fields step_update_Next_fields [OF u] step_omega_fields
        step_alpha_Next_fields [OF a])
qed

lemma residuals_III_precres:
  assumes "stop c = STOP_REL_PRECRES"
  shows "relres (residuals_III c (reinit c st)) = tempr st / normr0 st"
    and "w_r (residuals_III c (reinit c st)) = true_residual c (uval st)"
    and "w_t (residuals_III c (reinit c st)) = w_t st"
    and "more_step (residuals_III c (reinit c st)) = more_step st"
  using assms by (simp_all add: residuals_III_def reinit_fields Let_def)

subsection \<open>The two small systems, by hand\<close>

lemma mxv_ex: "fasp_blas_dcsr_mxv ex_A [x, y] = [x, 2 * y]"
  by (simp add: fasp_blas_dcsr_mxv_def ex_A_def upto.simps eval_nat_numeral)

lemma ex_args_simps:
  "mxv ex_args [x, y] = [x, 2 * y]" "bval ex_args = [1, 1]"
  "precond ex_args [x, y] = [x / 45, y / 45]" "tol ex_args = 1 / 10" "MaxIt ex_args = 10"
  "stop ex_args = STOP_REL_PRECRES" "maxdiff ex_args = 1 / 1000" "TOL_s ex_args = 1 / 1000"
  by (simp_all add: ex_args_def ex_pc_def precond_def maxdiff_def TOL_s_def STAG_RATIO_def mxv_ex)


lemma dot_2: "fasp_blas_array_dotprod [x, y] [x', y'] = x * x' + y * y'"
  by (simp add: fasp_blas_array_dotprod_def)

lemma axpy_2: "fasp_blas_array_axpy a [x, y] [x', y'] = [x' + a * x, y' + a * y]"
  by (simp add: fasp_blas_array_axpy_def)

lemma axpby_2: "fasp_blas_array_axpby a [x, y] b [x', y'] = [a * x + b * x', a * y + b * y']"
  by (simp add: fasp_blas_array_axpby_def)

lemma norm2_2: "fasp_blas_array_norm2 [x, y] = sqrt (x * x + y * y)"
  by (simp add: fasp_blas_array_norm2_def fasp_blas_array_dotprod_def)

lemma norminf_2: "fasp_blas_array_norminf [x, y] = max (max 0 \<bar>x\<bar>) \<bar>y\<bar>"
  by (simp add: fasp_blas_array_norminf_def)

lemma res_ex: "true_residual ex_args [x, y] = [1 - x, 1 - 2 * y]"
  by (simp add: true_residual_def ex_args_simps axpy_2)


lemmas ex_simps = ex_args_simps dot_2 axpy_2 axpby_2 res_ex


lemma sqrt_2025: "sqrt (1 / 2025) = 1 / 45"
  by (rule real_sqrt_unique) (simp_all add: power2_eq_square)

lemma sqrt_218: "\<not> sqrt (218 / 225) < 1 / 1000" "sqrt (218 / 225) \<noteq> 0"
proof -
  have "(1 / 1000)\<^sup>2 \<le> (218 / 225 :: real)" by (simp add: power2_eq_square)
  then have "1 / 1000 \<le> sqrt (218 / 225)" by (rule real_le_rsqrt)
  then show "\<not> sqrt (218 / 225) < 1 / 1000" "sqrt (218 / 225) \<noteq> 0" by simp_all
qed

lemma rel_small: "1 / 45 / sqrt 2 < 1 / 10" "1 / (3645 * sqrt 2) < 1 / 10"
proof -
  have a: "(1::real) \<le> sqrt 2" by simp
  have p: "0 < sqrt 2" by simp
  have "1 / 45 < 1 / 10 * sqrt 2" using a by linarith
  then show "1 / 45 / sqrt 2 < 1 / 10" by (simp only: pos_divide_less_eq [OF p])
  have "1 / 3645 < 1 / 10 * sqrt 2" using a by linarith
  then have "1 / 3645 / sqrt 2 < 1 / 10" by (simp only: pos_divide_less_eq [OF p])
  then show "1 / (3645 * sqrt 2) < 1 / 10" by simp
qed

lemma ex_step_alpha:
  "step_alpha ex_args 1 ex_start
   = Some (Next (ex_start\<lparr>w_pp := [1/45, 1/45], w_z := [1/45, 2/45], temp2 := 1/15, alpha := 30\<rparr>))"
  by (simp add: step_alpha_def SMALLREAL_def Let_def ex_simps ex_start_def)

lemma ex_step_omega:
  "step_omega ex_args (ex_start\<lparr>w_pp := [1/45, 1/45], w_z := [1/45, 2/45], temp2 := 1/15, alpha := 30\<rparr>)
   = ex_start\<lparr>w_pp := [1/45, 1/45], w_z := [1/45, 2/45], temp2 := 1/15, alpha := 30,
       w_s := [1/3, -1/3], w_sp := [1/135, -1/135], w_t := [1/135, -2/135], tempr := 1/3645,
       omega := 27\<rparr>"
  by (simp add: step_omega_def SMALLREAL_def Let_def ex_simps ex_start_def)

lemma ex_step_update:
  "step_update ex_args 1 (ex_start\<lparr>w_pp := [1/45, 1/45], w_z := [1/45, 2/45], temp2 := 1/15, alpha := 30,
       w_s := [1/3, -1/3], w_sp := [1/135, -1/135], w_t := [1/135, -2/135], tempr := 1/3645,
       omega := 27\<rparr>)
   = Some (Next (ex_at_check_III\<lparr>w_z := [1/45, 2/45], absres := BIGREAL, relres := 1,
        u_best := [0, 0], iter_best := 0, absres_best := BIGREAL, infnormu := 0\<rparr>))"
  using sqrt_218
  by (simp add: step_update_def SMALLREAL_def Let_def div_checked_def ex_simps norm2_2
      ex_start_def ex_at_check_III_def)

lemma ex_compute_residuals:
  "compute_residuals ex_args (ex_at_check_III\<lparr>w_z := [1/45, 2/45], absres := BIGREAL, relres := 1,
        u_best := [0, 0], iter_best := 0, absres_best := BIGREAL, infnormu := 0\<rparr>)
   = ex_at_check_III\<lparr>u_best := [0, 0], iter_best := 0, absres_best := BIGREAL, infnormu := 0\<rparr>"
  by (simp add: compute_residuals_def Let_def sqrt_2025 ex_simps ex_at_check_III_def)

lemma ex_save_best:
  "save_best ex_args 1 (ex_at_check_III\<lparr>u_best := [0, 0], iter_best := 0, absres_best := BIGREAL,
        infnormu := 0\<rparr>)
   = ex_at_check_III\<lparr>infnormu := 0\<rparr>"
  by (simp add: save_best_def BIGREAL_def ex_simps ex_at_check_III_def)

lemma ex_check_I:
  "check_I ex_args (ex_at_check_III\<lparr>infnormu := 0\<rparr>) = Some (Next ex_at_check_III)"
  by (simp add: check_I_def norminf_2 SMALLREAL_def Let_def ex_at_check_III_def)

lemma ex_check_II: "check_II ex_args ex_at_check_III = Some (Next ex_at_check_III)"
  by (simp add: check_II_def ex_simps ex_at_check_III_def)

lemma ex_before_check_III: "before_check_III ex_args 1 ex_start = Some (Next ex_at_check_III)"
  unfolding before_check_III_def
  by (simp only: ex_step_alpha ex_step_omega ex_step_update ex_compute_residuals ex_save_best
      ex_check_I ex_check_II flow_bind_def option.case flow.case)
























subsection \<open>Small denominators\<close>

lemma step_omega_small_denominator:
  assumes "\<bar>fasp_blas_array_dotprod (w_t (step_omega c st)) (w_t (step_omega c st))\<bar> \<le> SMALLREAL"
  shows "omega (step_omega c st) = 0"
  using assms by (simp add: step_omega_def Let_def)

lemma step_alpha_small_denominator:
  assumes "\<bar>fasp_blas_array_dotprod (mxv c (precond c (w_p st))) (w_rho st)\<bar> \<le> SMALLREAL"
  shows "step_alpha c k st
         = Some (Leave (FINISHED (Count k))
                  (st\<lparr>w_pp := precond c (w_p st), w_z := mxv c (precond c (w_p st)),
                      temp2 := fasp_blas_array_dotprod (mxv c (precond c (w_p st))) (w_rho st)\<rparr>))"
  using assms by (simp add: step_alpha_def Let_def)


text \<open>
  Claim C4. In \<open>step_omega\<close> a denominator \<open>\<langle>t,t\<rangle>\<close> with \<open>|\<langle>t,t\<rangle>| \<le> SMALLREAL\<close> sets
  \<open>omega = 0\<close> and the round goes on (\<open>step_omega_small_denominator\<close>; the step has no exit).
  For the denominator \<open>\<langle>A pp, r\<^sup>*\<rangle>\<close> of \<open>alpha\<close> the claim is that the solver returns the
  DIVZERO error code. The source prints the \<^verbatim>\<open>ITS_DIVZERO\<close> message and jumps to
  \<^verbatim>\<open>FINISHED\<close> with \<open>iter\<close> untouched (\<open>step_alpha_small_denominator\<close>), so that the value
  returned is the number of the current round, the value documented for convergence
  (\<^verbatim>\<open>\return Iteration number if converges; ERROR otherwise\<close>). The non-singular system
  \<open>A = (0 1; -1 0)\<close>, \<open>b = (1, 0)\<close>, \<open>u = (0, 0)\<close>, without preconditioner, with tolerance
  \<open>10\<^sup>-\<^sup>6\<close>, \<open>MaxIt = 10\<close> and \<^verbatim>\<open>STOP_REL_RES\<close>, has \<open>\<langle>A p, r\<^sup>*\<rangle> = 0\<close> in the first round: the solver
  returns \<open>1\<close> and hands back \<open>u = (0, 0)\<close>, whose relative residual is \<open>1\<close>.
\<close>

theorem C4_alpha_breakdown_returns_iteration_count:
  "fasp_solver_dcsr_spbcgs
     \<lparr>dCSRmat.row = 2, col = 2, nnz = 2, IA = [0, 1, 2], JA = [1, 0], val = [1, - 1]\<rparr>
     [1, 0] [0, 0] None (1 / 10 ^ 6) 10 STOP_REL_RES = Some (Count 1, [0, 0])
   \<and> spbcgs_report
       \<lparr>mxv = fasp_blas_dcsr_mxv
                \<lparr>dCSRmat.row = 2, col = 2, nnz = 2, IA = [0, 1, 2], JA = [1, 0], val = [1, - 1]\<rparr>,
        bval = [1, 0], pc = None, tol = 1 / 10 ^ 6, MaxIt = 10, stop = STOP_REL_RES\<rparr> [0, 0]
     = Some (FINISHED (Count 1), Count 1, [0, 0], [0, 0], 0, BIGREAL)"
  by (simp add: fasp_solver_dcsr_spbcgs_def spbcgs_report_def fasp_blas_dcsr_mxv_def spbcgs_defs
      spbcgs_loop.simps Let_def upto.simps eval_nat_numeral)

subsection \<open>Check III under \<^verbatim>\<open>STOP_REL_PRECRES\<close>\<close>

text \<open>
  Claim C3. Under \<^verbatim>\<open>STOP_REL_PRECRES\<close>, when a round reaches Check III (``prevent false
  convergence'') in the state \<open>st4\<close> with \<open>relres < tol\<close>, the branch recomputes the residual
  \<open>r = b - A u\<close> and \<open>absres\<close> from it, but the relative residual that it then compares with
  \<open>tol\<close> is \<open>tempr / normr0\<close>, where \<open>tempr\<close> is still \<open>\<langle>t,t\<rangle>\<close> for the vector \<open>t\<close> of the
  \<open>omega\<close> step of this round; neither \<open>t\<close> nor \<open>tempr\<close> is touched by the branch. The model
  is written over the map \<open>x \<mapsto> A x\<close> and so covers the four solvers of the file, whose
  text differs in the matrix type only.
\<close>

theorem C3_check_III_precres_uses_tempr:
  assumes "stop c = STOP_REL_PRECRES"
    and "before_check_III c k st = Some (Next st4)"
    and "relres st4 < tol c"
  shows "relres (residuals_III c (reinit c st4))
           = fasp_blas_array_dotprod (w_t st4) (w_t st4) / normr0 st4
       \<and> absres (residuals_III c (reinit c st4)) = stop_norm c (uval st4)
       \<and> w_r (residuals_III c (reinit c st4)) = true_residual c (uval st4)
       \<and> w_t (residuals_III c (reinit c st4)) = w_t st4
       \<and> check_III c st4 =
           (if relres (residuals_III c (reinit c st4)) < tol c
            then Some (Leave BREAK (residuals_III c (reinit c st4)))
            else if more_step st4 \<ge> MAX_RESTART
            then Some (Leave (FINISHED (Code ERROR_SOLVER_TOLSMALL)) (residuals_III c (reinit c st4)))
            else Some (Next ((residuals_III c (reinit c st4))
                        \<lparr>more_step := more_step st4 + 1,
                         restart_step := restart_step (residuals_III c (reinit c st4)) + 1\<rparr>)))"
proof -
  have s: "stop c \<noteq> STOP_UNKNOWN" using assms(1) by simp
  have "relres (residuals_III c (reinit c st4)) = tempr st4 / normr0 st4"
    by (rule residuals_III_precres(1) [OF assms(1)])
  then have "relres (residuals_III c (reinit c st4))
           = fasp_blas_array_dotprod (w_t st4) (w_t st4) / normr0 st4"
    by (simp only: before_check_III_tempr(1) [OF assms(2)])
  moreover have "absres (residuals_III c (reinit c st4)) = stop_norm c (uval st4)"
    by (rule residuals_III_absres(1) [OF s])
  moreover have "w_r (residuals_III c (reinit c st4)) = true_residual c (uval st4)"
    and "w_t (residuals_III c (reinit c st4)) = w_t st4"
    by (rule residuals_III_precres [OF assms(1)])+
  moreover have "check_III c st4 =
           (if relres (residuals_III c (reinit c st4)) < tol c
            then Some (Leave BREAK (residuals_III c (reinit c st4)))
            else if more_step st4 \<ge> MAX_RESTART
            then Some (Leave (FINISHED (Code ERROR_SOLVER_TOLSMALL)) (residuals_III c (reinit c st4)))
            else Some (Next ((residuals_III c (reinit c st4))
                        \<lparr>more_step := more_step st4 + 1,
                         restart_step := restart_step (residuals_III c (reinit c st4)) + 1\<rparr>)))"
    using assms(3) by (simp add: check_III_def Let_def residuals_III_precres(4) [OF assms(1)])
  ultimately show ?thesis by blast
qed

theorem C3_check_III_precres_uses_tempr_witness:
  "stop ex_args = STOP_REL_PRECRES
   \<and> before_check_III ex_args 1 ex_start = Some (Next ex_at_check_III)
   \<and> relres ex_at_check_III < tol ex_args
   \<and> fasp_blas_array_dotprod (w_t ex_at_check_III) (w_t ex_at_check_III) = 1 / 3645
   \<and> normr0 ex_at_check_III = sqrt 2
   \<and> relres (residuals_III ex_args (reinit ex_args ex_at_check_III))
       = fasp_blas_array_dotprod (w_t ex_at_check_III) (w_t ex_at_check_III)
         / normr0 ex_at_check_III
   \<and> absres (residuals_III ex_args (reinit ex_args ex_at_check_III))
       = stop_norm ex_args (uval ex_at_check_III)
   \<and> w_r (residuals_III ex_args (reinit ex_args ex_at_check_III))
       = true_residual ex_args (uval ex_at_check_III)"
proof -
  have r: "relres ex_at_check_III < tol ex_args"
    using rel_small(1) by (simp add: ex_at_check_III_def ex_args_simps)
  have "fasp_blas_array_dotprod (w_t ex_at_check_III) (w_t ex_at_check_III) = 1 / 3645"
    and "normr0 ex_at_check_III = sqrt 2"
    by (simp_all add: ex_at_check_III_def dot_2)
  with C3_check_III_precres_uses_tempr [OF ex_args_simps(6) ex_before_check_III r] r
    ex_before_check_III ex_args_simps(6)
  show ?thesis by blast
qed

section \<open>BiCGstab with safe net: the bound at a convergence exit\<close>

subsection \<open>Vectors of one length\<close>










subsection \<open>The phases of a round\<close>























subsection \<open>The product with a CSR matrix is linear\<close>






subsection \<open>The safe net\<close>




end
